theory Spec2Isabelle
  imports Complex_Main "HOL-Library.Word"
begin

unbundle bit_operations_syntax

section \<open>The sobar ABI vocabulary (windows/sobar/include/sobar.h)\<close>

subsection \<open>Render flags\<close>

text \<open>
  \<^verbatim>\<open>enum sbr_RenderFlags : unsigned int\<close>: the underlying type is a 32-bit unsigned
  integer. The constants are given in the order and with the values of the header.
\<close>

type_synonym uint = "32 word"

definition sbr_rfAnnot :: uint where
  "sbr_rfAnnot = 1"

definition sbr_rfTextLCD :: uint where
  "sbr_rfTextLCD = 2"

definition sbr_rfNoNativeTextRendering :: uint where
  "sbr_rfNoNativeTextRendering = 4"

definition sbr_rfGrayscale :: uint where
  "sbr_rfGrayscale = 8"

definition sbr_rfDebug :: uint where
  "sbr_rfDebug = 0x80"

definition sbr_rfNoCatch :: uint where
  "sbr_rfNoCatch = 0x100"

definition sbr_rfLimitedCache :: uint where
  "sbr_rfLimitedCache = 0x200"

definition sbr_rfHalfTone :: uint where
  "sbr_rfHalfTone = 0x400"

definition sbr_rfForPrinting :: uint where
  "sbr_rfForPrinting = 0x800"

definition sbr_rfNoSmoothText :: uint where
  "sbr_rfNoSmoothText = 0x1000"

definition sbr_rfNoSmoothImage :: uint where
  "sbr_rfNoSmoothImage = 0x2000"

definition sbr_rfNoSmoothPath :: uint where
  "sbr_rfNoSmoothPath = 0x4000"

definition sbr_rfReverseByteOrder :: uint where
  "sbr_rfReverseByteOrder = 0x10"

definition sbr_rfNoWhiteFill :: uint where
  "sbr_rfNoWhiteFill = 0x20"

text \<open>All enumerators of \<^verbatim>\<open>sbr_RenderFlags\<close>, in declaration order.\<close>

definition sbr_RenderFlags :: "uint list" where
  "sbr_RenderFlags =
     [sbr_rfAnnot, sbr_rfTextLCD, sbr_rfNoNativeTextRendering, sbr_rfGrayscale,
      sbr_rfDebug, sbr_rfNoCatch, sbr_rfLimitedCache, sbr_rfHalfTone,
      sbr_rfForPrinting, sbr_rfNoSmoothText, sbr_rfNoSmoothImage, sbr_rfNoSmoothPath,
      sbr_rfReverseByteOrder, sbr_rfNoWhiteFill]"

lemmas sbr_rf_defs =
  sbr_rfAnnot_def sbr_rfTextLCD_def sbr_rfNoNativeTextRendering_def sbr_rfGrayscale_def
  sbr_rfDebug_def sbr_rfNoCatch_def sbr_rfLimitedCache_def sbr_rfHalfTone_def
  sbr_rfForPrinting_def sbr_rfNoSmoothText_def sbr_rfNoSmoothImage_def
  sbr_rfNoSmoothPath_def sbr_rfReverseByteOrder_def sbr_rfNoWhiteFill_def

text \<open>A value with exactly one bit set: non-zero, and clearing the lowest set bit leaves 0.\<close>

definition single_bit :: "uint \<Rightarrow> bool" where
  "single_bit f = (f \<noteq> 0 \<and> f AND (f - 1) = 0)"

text \<open>
  "They can be combined with bit-wise OR": the mask a caller builds from a sequence of
  flags, \<^verbatim>\<open>f1 | f2 | ...\<close>, starting from no flag at all.
\<close>

fun combine :: "uint list \<Rightarrow> uint" where
  "combine [] = 0"
| "combine (f # fs) = f OR combine fs"

text \<open>The test a consumer of the mask makes for one flag: \<^verbatim>\<open>(flags & f) != 0\<close>.\<close>

definition flag_set :: "uint \<Rightarrow> uint \<Rightarrow> bool" where
  "flag_set flags f = (flags AND f \<noteq> 0)"

text \<open>
  The behaviours the header's comments attach to the negative flags:
  "Set to disable anti-aliasing on text / images / paths", "Don't white-fill before
  rendering actual image", "Set if you don't want to catch exceptions".
\<close>

definition smooth_text :: "uint \<Rightarrow> bool" where
  "smooth_text flags = (\<not> flag_set flags sbr_rfNoSmoothText)"

definition smooth_image :: "uint \<Rightarrow> bool" where
  "smooth_image flags = (\<not> flag_set flags sbr_rfNoSmoothImage)"

definition smooth_path :: "uint \<Rightarrow> bool" where
  "smooth_path flags = (\<not> flag_set flags sbr_rfNoSmoothPath)"

definition white_fill :: "uint \<Rightarrow> bool" where
  "white_fill flags = (\<not> flag_set flags sbr_rfNoWhiteFill)"

definition catch_exceptions :: "uint \<Rightarrow> bool" where
  "catch_exceptions flags = (\<not> flag_set flags sbr_rfNoCatch)"

definition default_behaviour :: "uint \<Rightarrow> bool" where
  "default_behaviour flags =
     (smooth_text flags \<and> smooth_image flags \<and> smooth_path flags \<and>
      white_fill flags \<and> catch_exceptions flags)"

subsection \<open>Rotation\<close>

text \<open>
  \<^verbatim>\<open>enum sbr_RotateClockwise\<close>, the type of the \<^verbatim>\<open>rotate\<close> parameter of
  \<^verbatim>\<open>sbr_PdfPageRender\<close>: four enumerators, with the values the header assigns and the
  angle the header's names and comments give ("normal", "90 degree clockwise",
  "180 degree", "270 degree clockwise").
\<close>

datatype sbr_RotateClockwise =
  sbr_RotateClockwise_0
| sbr_RotateClockwise_90
| sbr_RotateClockwise_180
| sbr_RotateClockwise_270

fun rotate_value :: "sbr_RotateClockwise \<Rightarrow> int" where
  "rotate_value sbr_RotateClockwise_0 = 0"
| "rotate_value sbr_RotateClockwise_90 = 1"
| "rotate_value sbr_RotateClockwise_180 = 2"
| "rotate_value sbr_RotateClockwise_270 = 3"

fun rotate_degrees :: "sbr_RotateClockwise \<Rightarrow> int" where
  "rotate_degrees sbr_RotateClockwise_0 = 0"
| "rotate_degrees sbr_RotateClockwise_90 = 90"
| "rotate_degrees sbr_RotateClockwise_180 = 180"
| "rotate_degrees sbr_RotateClockwise_270 = 270"

subsection \<open>Pixel formats\<close>

datatype sbr_PixelFormat =
  sbr_PixelFormat_invalid
| sbr_PixelFormat_gray
| sbr_PixelFormat_bgr
| sbr_PixelFormat_bgra
| sbr_PixelFormat_rgb
| sbr_PixelFormat_rgba

section \<open>The Windows plugin (windows/pdf_render_plugin.cpp)\<close>

text \<open>
  The plugin talks to the engine only through three entry points of sobar.h. The state of
  the model is the sequence of engine calls made so far, \<open>call_sbr_Initialize\<close> standing
  for a call of \<^verbatim>\<open>sbr_Initialize\<close> and so on. A call of
  \<^verbatim>\<open>sbr_PdfDocumentOpenFile\<close> is recorded with the handle it returned, a call of
  \<^verbatim>\<open>sbr_PdfDocumentClose\<close> with the handle it was given. Handles \<open>'h\<close> are pointers: words
  of the platform's width \<open>'p\<close>; the null pointer is 0.
\<close>

datatype 'h sbr_call =
  call_sbr_Initialize
| call_sbr_Finalize
| call_sbr_PdfDocumentOpenFile 'h
| call_sbr_PdfDocumentClose 'h

text \<open>
  \<^verbatim>\<open>flutter::EncodableValue\<close>, the variant of the method channel's codec. The
  constructor \<open>UInt32\<close> stands for the value built from a \<^verbatim>\<open>uint32_t\<close> expression,
  \<open>Int32\<close> for the one built from an \<^verbatim>\<open>int\<close>. The floating-point alternative
  is left out: the plugin neither builds nor inspects one.
\<close>

datatype EncodableValue =
  Null
| Bool bool
| Int32 int
| Int64 int
| UInt32 uint
| String string
| List "EncodableValue list"
| Map "(EncodableValue \<times> EncodableValue) list"

record MethodCall =
  method_name :: string
  arguments :: EncodableValue

text \<open>What the handler does with its \<^verbatim>\<open>MethodResult\<close>.\<close>

datatype MethodResult =
  Success EncodableValue
| Error string string EncodableValue
| NotImplemented

text \<open>
  The engine is outside the plugin: what \<^verbatim>\<open>sbr_PdfDocumentOpenFile()\<close> returns is given
  by \<open>engine\<close>, a function of the calls made before. The handler passes it no argument.

  \<^verbatim>\<open>PdfRenderPlugin::PdfRenderPlugin() { sbr_Initialize(); }\<close>
  \<^verbatim>\<open>PdfRenderPlugin::~PdfRenderPlugin() { sbr_Finalize(); }\<close>
\<close>

definition PdfRenderPlugin_ctor :: "'p word sbr_call list \<Rightarrow> 'p word sbr_call list" where
  "PdfRenderPlugin_ctor calls = calls @ [call_sbr_Initialize]"

definition PdfRenderPlugin_dtor :: "'p word sbr_call list \<Rightarrow> 'p word sbr_call list" where
  "PdfRenderPlugin_dtor calls = calls @ [call_sbr_Finalize]"

text \<open>
  \<^verbatim>\<open>HandleMethodCall\<close>: a chain of comparisons of the method name; the result of the
  handler is the response and the engine calls after it.
  \<^verbatim>\<open>reinterpret_cast<uint32_t>\<close> of the returned pointer keeps its low 32 bits.
\<close>

definition HandleMethodCall ::
  "('p::len word sbr_call list \<Rightarrow> 'p word) \<Rightarrow> MethodCall \<Rightarrow> 'p word sbr_call list \<Rightarrow>
   MethodResult \<times> 'p word sbr_call list" where
  "HandleMethodCall engine method_call calls =
     (if method_name method_call = ''file'' then
        (let doc = engine calls
         in (Success (UInt32 (ucast doc)), calls @ [call_sbr_PdfDocumentOpenFile doc]))
      else if method_name method_call = ''asset'' then (Success (Int32 0), calls)
      else if method_name method_call = ''data'' then (Success (Int32 0), calls)
      else if method_name method_call = ''close'' then (Success (Int32 0), calls)
      else (NotImplemented, calls))"

text \<open>
  The life of one plugin object: \<^verbatim>\<open>RegisterWithRegistrar\<close> constructs it, the channel
  hands it the method calls one after the other, and the registrar that owns it destroys
  it. The result is the responses and every engine call of that life, in order.
\<close>

fun handle_calls ::
  "('p::len word sbr_call list \<Rightarrow> 'p word) \<Rightarrow> MethodCall list \<Rightarrow> 'p word sbr_call list \<Rightarrow>
   MethodResult list \<times> 'p word sbr_call list" where
  "handle_calls engine [] calls = ([], calls)"
| "handle_calls engine (mc # mcs) calls =
     (let (res, calls') = HandleMethodCall engine mc calls;
          (ress, calls'') = handle_calls engine mcs calls'
      in (res # ress, calls''))"

definition plugin_life ::
  "('p::len word sbr_call list \<Rightarrow> 'p word) \<Rightarrow> MethodCall list \<Rightarrow> 'p word sbr_call list" where
  "plugin_life engine mcs =
     PdfRenderPlugin_dtor (snd (handle_calls engine mcs (PdfRenderPlugin_ctor [])))"

text \<open>
  The handles that are open after a sequence of engine calls: those returned non-null by
  an open and not closed since.
\<close>

fun open_handles :: "'p::len word sbr_call list \<Rightarrow> 'p word list \<Rightarrow> 'p word list" where
  "open_handles [] hs = hs"
| "open_handles (call_sbr_PdfDocumentOpenFile h # cs) hs =
     open_handles cs (if h = 0 then hs else h # hs)"
| "open_handles (call_sbr_PdfDocumentClose h # cs) hs = open_handles cs (removeAll h hs)"
| "open_handles (c # cs) hs = open_handles cs hs"

text \<open>
  The lifecycle rule of the engine, checked on a sequence of calls: every
  \<^verbatim>\<open>sbr_Finalize\<close> comes when no handle is open.
\<close>

fun finalize_after_close :: "'p::len word sbr_call list \<Rightarrow> 'p word list \<Rightarrow> bool" where
  "finalize_after_close [] hs = True"
| "finalize_after_close (call_sbr_Finalize # cs) hs = (hs = [] \<and> finalize_after_close cs hs)"
| "finalize_after_close (c # cs) hs = finalize_after_close cs (open_handles [c] hs)"

text \<open>
  \<^verbatim>\<open>RegisterWithRegistrar\<close>, which \<^verbatim>\<open>PdfRenderPluginRegisterWithRegistrar\<close> calls for the
  registrar it is given: \<^verbatim>\<open>std::make_unique<PdfRenderPlugin>()\<close> runs the constructor, and
  the registrar takes the plugin over. Nothing in it looks whether a plugin exists
  already.
\<close>

definition RegisterWithRegistrar :: "'p word sbr_call list \<Rightarrow> 'p word sbr_call list" where
  "RegisterWithRegistrar calls = PdfRenderPlugin_ctor calls"

text \<open>
  What happens to the plugin in a process: a registrar registers it, the channel delivers
  a method call to a plugin object, a registrar is destroyed and with it the plugin object
  it owns. A plugin object has no member, so the engine calls do not depend on which
  object an event concerns. \<open>process_calls\<close> is every engine call of the process, in order.
\<close>

datatype host_event = Register | Deliver MethodCall | Destroy

fun host_step ::
  "('p::len word sbr_call list \<Rightarrow> 'p word) \<Rightarrow> host_event \<Rightarrow> 'p word sbr_call list \<Rightarrow>
   'p word sbr_call list" where
  "host_step engine Register calls = RegisterWithRegistrar calls"
| "host_step engine (Deliver mc) calls = snd (HandleMethodCall engine mc calls)"
| "host_step engine Destroy calls = PdfRenderPlugin_dtor calls"

definition process_calls ::
  "('p::len word sbr_call list \<Rightarrow> 'p word) \<Rightarrow> host_event list \<Rightarrow> 'p word sbr_call list" where
  "process_calls engine evs = fold (host_step engine) evs []"

section \<open>The Android buffer helper (android/c++/directBufferAndroid.cpp)\<close>

text \<open>
  The three JNI functions of \<^verbatim>\<open>ByteBufferHelper\<close> pass addresses and sizes as
  \<^verbatim>\<open>jlong\<close>, a 64-bit integer, and convert them to and from \<^verbatim>\<open>size_t\<close> and pointers
  of the platform's width \<open>'w\<close> (32 bits on armeabi-v7a and x86, 64 on arm64-v8a and
  x86_64). These conversions are \<open>ucast\<close>: to a narrower type the low bits are kept, to a
  wider type from the unsigned \<^verbatim>\<open>size_t\<close> the value is kept.
\<close>

type_synonym jlong = "64 word"
type_synonym byte = "8 word"

text \<open>
  The native heap: the byte stored at every address, and the blocks that
  \<^verbatim>\<open>malloc\<close> has handed out and \<^verbatim>\<open>free\<close> has not taken back, each with its first
  address and its size in bytes.
\<close>

record 'a heap =
  memory :: "'a \<Rightarrow> byte"
  blocks :: "('a \<times> nat) list"

text \<open>An address is valid when it lies in one of the live blocks.\<close>

definition valid :: "'w::len word heap \<Rightarrow> 'w word \<Rightarrow> bool" where
  "valid h a = list_ex (\<lambda>(p, m). unat p \<le> unat a \<and> unat a < unat p + m) (blocks h)"

text \<open>
  \<^verbatim>\<open>malloc\<close> and \<^verbatim>\<open>free\<close> of the C library. Where the platform's allocator places a
  block is not decided here: \<open>alloc\<close> gives the address for a heap and a size, the null
  pointer 0 when the request cannot be satisfied. \<open>malloc_ok\<close> is what the C standard
  promises of a non-null result: the block lies within the address space and overlaps
  no live block.
\<close>

definition c_malloc ::
  "('w::len word heap \<Rightarrow> 'w word \<Rightarrow> 'w word) \<Rightarrow> 'w word heap \<Rightarrow> 'w word \<Rightarrow>
   'w word \<times> 'w word heap" where
  "c_malloc alloc h n =
     (let p = alloc h n
      in if p = 0 then (0, h) else (p, h\<lparr>blocks := (p, unat n) # blocks h\<rparr>))"

definition malloc_ok ::
  "('w::len word heap \<Rightarrow> 'w word \<Rightarrow> 'w word) \<Rightarrow> 'w word heap \<Rightarrow> 'w word \<Rightarrow> bool" where
  "malloc_ok alloc h n =
     (let p = alloc h n
      in p = 0 \<or>
         (unat p + unat n \<le> 2 ^ LENGTH('w) \<and>
          list_all (\<lambda>(q, m). unat p + unat n \<le> unat q \<or> unat q + m \<le> unat p) (blocks h)))"

text \<open>\<^verbatim>\<open>free\<close>: nothing for the null pointer, undefined (\<open>None\<close>) for an address that is
  not the start of a live block.\<close>

definition c_free :: "'w::len word heap \<Rightarrow> 'w word \<Rightarrow> 'w word heap option" where
  "c_free h p =
     (if p = 0 then Some h
      else if p \<in> fst ` set (blocks h)
        then Some (h\<lparr>blocks := filter (\<lambda>(q, m). q \<noteq> p) (blocks h)\<rparr>)
      else None)"

text \<open>
  A direct \<^verbatim>\<open>java.nio.ByteBuffer\<close>, as JNI's \<^verbatim>\<open>NewDirectByteBuffer(address, capacity)\<close>
  makes it: a view that refers to the memory starting at \<open>address\<close> and extending
  \<open>capacity\<close> bytes. It holds no bytes of its own. The capacity of a
  \<^verbatim>\<open>java.nio.ByteBuffer\<close> is a Java \<^verbatim>\<open>int\<close>: for a \<^verbatim>\<open>jlong\<close> capacity that is negative
  or above \<^verbatim>\<open>Integer.MAX_VALUE\<close> JNI makes no buffer, and the call yields no object
  (\<open>None\<close>).
\<close>

record 'a ByteBuffer =
  address :: 'a
  capacity :: jlong

definition NewDirectByteBuffer :: "'w word \<Rightarrow> jlong \<Rightarrow> 'w word ByteBuffer option" where
  "NewDirectByteBuffer addr cap =
     (if sint cap < 0 \<or> 2 ^ 31 - 1 < sint cap then None
      else Some \<lparr>address = addr, capacity = cap\<rparr>)"

text \<open>
  \<^verbatim>\<open>return env->NewDirectByteBuffer(reinterpret_cast<void *>(static_cast<size_t>(ptr)), size);\<close>
\<close>

definition ByteBufferHelper_newDirectBuffer ::
  "jlong \<Rightarrow> jlong \<Rightarrow> 'w::len word ByteBuffer option" where
  "ByteBufferHelper_newDirectBuffer ptr sz = NewDirectByteBuffer (ucast ptr) sz"

text \<open>
  \<^verbatim>\<open>return static_cast<jlong>(reinterpret_cast<size_t>(malloc(size)));\<close>
  The \<^verbatim>\<open>jlong\<close> size (\<open>sz\<close> below) is converted to the \<^verbatim>\<open>size_t\<close> parameter of
  \<^verbatim>\<open>malloc\<close>.
\<close>

definition ByteBufferHelper_malloc ::
  "('w::len word heap \<Rightarrow> 'w word \<Rightarrow> 'w word) \<Rightarrow> 'w word heap \<Rightarrow> jlong \<Rightarrow>
   jlong \<times> 'w word heap" where
  "ByteBufferHelper_malloc alloc h sz =
     (let (p, h') = c_malloc alloc h (ucast sz) in (ucast p, h'))"

text \<open>\<^verbatim>\<open>free(reinterpret_cast<void *>(static_cast<size_t>(ptr)));\<close>\<close>

definition ByteBufferHelper_free :: "'w::len word heap \<Rightarrow> jlong \<Rightarrow> 'w word heap option" where
  "ByteBufferHelper_free h ptr = c_free h (ucast ptr)"

text \<open>
  Reading and writing through the view, as the host does with the absolute
  \<^verbatim>\<open>get(index)\<close> and \<^verbatim>\<open>put(index, b)\<close> of the buffer: the index is checked against
  the capacity, and the byte at \<open>address + index\<close> of the native heap is accessed in
  place. An access outside every live block is undefined behaviour of the process.
\<close>

datatype access_error = IndexOutOfBounds | InvalidMemory

definition put ::
  "'w::len word ByteBuffer \<Rightarrow> nat \<Rightarrow> byte \<Rightarrow> 'w word heap \<Rightarrow> access_error + 'w word heap" where
  "put buf i b h =
     (if \<not> int i < sint (capacity buf) then Inl IndexOutOfBounds
      else if \<not> valid h (address buf + of_nat i) then Inl InvalidMemory
      else Inr (h\<lparr>memory := (memory h)(address buf + of_nat i := b)\<rparr>))"

definition get ::
  "'w::len word ByteBuffer \<Rightarrow> nat \<Rightarrow> 'w word heap \<Rightarrow> access_error + byte" where
  "get buf i h =
     (if \<not> int i < sint (capacity buf) then Inl IndexOutOfBounds
      else if \<not> valid h (address buf + of_nat i) then Inl InvalidMemory
      else Inr (memory h (address buf + of_nat i)))"

text \<open>Writing a pattern from index \<open>i\<close> on, and reading \<open>n\<close> bytes back from index \<open>i\<close>.\<close>

fun put_bytes ::
  "'w::len word ByteBuffer \<Rightarrow> nat \<Rightarrow> byte list \<Rightarrow> 'w word heap \<Rightarrow>
   access_error + 'w word heap" where
  "put_bytes buf i [] h = Inr h"
| "put_bytes buf i (b # bs) h =
     (case put buf i b h of
        Inl e \<Rightarrow> Inl e
      | Inr h' \<Rightarrow> put_bytes buf (Suc i) bs h')"

fun get_bytes ::
  "'w::len word ByteBuffer \<Rightarrow> nat \<Rightarrow> nat \<Rightarrow> 'w word heap \<Rightarrow> access_error + byte list" where
  "get_bytes buf i 0 h = Inr []"
| "get_bytes buf i (Suc n) h =
     (case get buf i h of
        Inl e \<Rightarrow> Inl e
      | Inr b \<Rightarrow>
          (case get_bytes buf (Suc i) n h of
             Inl e \<Rightarrow> Inl e
           | Inr bs \<Rightarrow> Inr (b # bs)))"

text \<open>
  The round trip a host makes with the helper: allocate \<open>N\<close> bytes, wrap the returned
  address and \<open>N\<close> as a view, write the pattern through the view from index 0, and read
  as many bytes back through the same view. The result is the bytes read, or what
  stopped the round trip.
\<close>

datatype round_trip_error = AllocationFailed | NoBuffer | Access access_error

definition round_trip ::
  "('w::len word heap \<Rightarrow> 'w word \<Rightarrow> 'w word) \<Rightarrow> 'w word heap \<Rightarrow> jlong \<Rightarrow> byte list \<Rightarrow>
   round_trip_error + byte list" where
  "round_trip alloc h N pattern =
     (let (ptr, h1) = ByteBufferHelper_malloc alloc h N
      in if ptr = 0 then Inl AllocationFailed
         else
           (case (ByteBufferHelper_newDirectBuffer ptr N :: 'w word ByteBuffer option) of
              None \<Rightarrow> Inl NoBuffer
            | Some buf \<Rightarrow>
                (case put_bytes buf 0 pattern h1 of
                   Inl e \<Rightarrow> Inl (Access e)
                 | Inr h2 \<Rightarrow>
                     (case get_bytes buf 0 (length pattern) h2 of
                        Inl e \<Rightarrow> Inl (Access e)
                      | Inr bs \<Rightarrow> Inr bs))))"

section \<open>The handle registry behind sobar.h\<close>

text \<open>
  sobar.h declares the entry points \<^verbatim>\<open>sbr_PdfDocument*\<close>, \<^verbatim>\<open>sbr_PdfPage*\<close> and
  \<^verbatim>\<open>sbr_PdfBitmap*\<close>; their bodies are not in the repository. This section models them
  from the specification (sections 3, 4.2 to 4.4, 6 and 7), keeping the names and the
  parameters of the declarations. The PDF engine stays a black box: it is the parameter
  \<open>eng\<close> of every operation that needs it.
\<close>

text \<open>Modelled from the spec: the error taxonomy of section 7.\<close>

datatype error =
  OpenError
| InvalidHandleError
| DoubleCloseError
| AllocationError
| RenderError

text \<open>Modelled from the spec: the states of a handle, section 4.3
  (\<open>Uninitialized \<rightarrow> Open \<rightarrow> Closed\<close>, \<open>Closed\<close> terminal).\<close>

datatype handle_state = Uninitialized | Open | Closed

text \<open>Modelled from the spec: an opaque handle, an integer into the registry's
  tables (section 9); 0 is the null handle.\<close>

type_synonym handle = nat

text \<open>Modelled from the spec: a callback of the host (sections 3 and 4.2), a function
  pointer known by its address; 0 is the null pointer.\<close>

type_synonym callback = nat

text \<open>Modelled from the spec: the opaque context token of the host (section 3), a
  \<^verbatim>\<open>void *\<close> known by its address.\<close>

type_synonym cb_context = nat

text \<open>Modelled from the spec: what the engine decodes a PDF byte stream into, as far as
  section 3 describes it: pages with a geometry in points, a rotation and a content.\<close>

record pdf_page =
  page_width :: real
  page_height :: real
  page_rotation :: int
  page_content :: nat

text \<open>Modelled from the spec: the engine, a black-box capability ("parse bytes into a
  document model, rasterize a page region into a pixel buffer", section 1), with the
  file system it reads. \<open>None\<close> is a failure: bad data, a wrong password, an unsupported
  format, an I/O failure (section 4.3), an internal fault of the rasterizer (section 7).
  A custom source is decoded from its size and its read callback
  \<open>read offset length\<close>, which the engine drives (section 4.2). Rasterizing is
  \<open>rotate_content\<close>, the requested clockwise rotation of a page content, followed by
  \<open>place\<close>, the drawing of a content into a destination rectangle
  \<open>(x, y, width, height)\<close> of a pixel memory under a flag mask (section 4.4).\<close>

record engine =
  parse_file :: "string \<Rightarrow> string \<Rightarrow> pdf_page list option"
  parse_memory :: "byte list \<Rightarrow> string \<Rightarrow> pdf_page list option"
  parse_custom :: "nat \<Rightarrow> (nat \<Rightarrow> nat \<Rightarrow> byte list) \<Rightarrow> string \<Rightarrow> pdf_page list option"
  rotate_content :: "sbr_RotateClockwise \<Rightarrow> nat \<Rightarrow> nat"
  place :: "nat \<Rightarrow> int \<times> int \<times> int \<times> int \<Rightarrow> uint \<Rightarrow> byte list \<Rightarrow> byte list option"

text \<open>Modelled from the spec: a Document (section 3) owns the decoded representation
  and, when it was opened against a custom source, that source's release callback and
  context.\<close>

record document =
  doc_pages :: "pdf_page list"
  doc_release :: "(callback \<times> cb_context) option"
  doc_state :: handle_state

text \<open>Modelled from the spec: a Page (section 3), owned by exactly one Document.\<close>

record page =
  page_owner :: handle
  page_data :: pdf_page
  page_state :: handle_state

text \<open>Modelled from the spec: a Bitmap (section 3): the description of a pixel surface
  and the optional release callback of a caller-supplied buffer, with its context.\<close>

record bitmap =
  bmp_width :: int
  bmp_height :: int
  bmp_format :: sbr_PixelFormat
  bmp_stride :: int
  bmp_scan0 :: nat
  bmp_release :: "(callback \<times> cb_context) option"
  bmp_state :: handle_state

text \<open>Modelled from the spec: the calls the wrapper makes back into the host: the
  release callback of a custom source (section 4.2) and the release callback of a bitmap
  (section 3), each with the context it is called with. The handle tells which
  document or bitmap the call was made for.\<close>

datatype event =
  SourceReleased handle callback cb_context
| BitmapReleased handle callback cb_context

text \<open>Modelled from the spec: the Handle Registry (sections 2 and 4.3): the tables
  from handles to resources, the next handle to give out, the pixel memory by address,
  and the callbacks invoked so far, in order.\<close>

record registry =
  documents :: "handle \<rightharpoonup> document"
  pages :: "handle \<rightharpoonup> page"
  bitmaps :: "handle \<rightharpoonup> bitmap"
  next_handle :: handle
  pixels :: "nat \<Rightarrow> byte list"
  released :: "event list"

text \<open>Modelled from the spec: the registry before any open; 0 is the null handle.\<close>

definition empty_registry :: registry where
  "empty_registry =
     \<lparr>documents = Map.empty, pages = Map.empty, bitmaps = Map.empty, next_handle = 1,
      pixels = (\<lambda>a. []), released = []\<rparr>"

text \<open>Modelled from the spec: the state of a Document handle (section 4.3); a
  handle the registry never gave out is \<open>Uninitialized\<close>.\<close>

definition doc_status :: "registry \<Rightarrow> handle \<Rightarrow> handle_state" where
  "doc_status r h = (case documents r h of None \<Rightarrow> Uninitialized | Some d \<Rightarrow> doc_state d)"

text \<open>Modelled from the spec: the state of a Bitmap handle (section 4.3).\<close>

definition bitmap_status :: "registry \<Rightarrow> handle \<Rightarrow> handle_state" where
  "bitmap_status r h = (case bitmaps r h of None \<Rightarrow> Uninitialized | Some b \<Rightarrow> bmp_state b)"

text \<open>Modelled from the spec: the cascade rule of section 4.3: closing a Document
  invalidates the Pages derived from it, so a Page is open only while its Document is.\<close>

definition page_status :: "registry \<Rightarrow> handle \<Rightarrow> handle_state" where
  "page_status r h =
     (case pages r h of
        None \<Rightarrow> Uninitialized
      | Some p \<Rightarrow>
          if page_state p = Open \<and> doc_status r (page_owner p) \<noteq> Open then Closed
          else page_state p)"

text \<open>Modelled from the spec: registering a freshly opened Document (section 4.3:
  \<open>open*\<close> returns a fresh handle).\<close>

definition register_document ::
  "registry \<Rightarrow> pdf_page list \<Rightarrow> (callback \<times> cb_context) option \<Rightarrow> handle \<times> registry" where
  "register_document r pdf rel =
     (next_handle r,
      r\<lparr>documents := (documents r)(next_handle r \<mapsto>
            \<lparr>doc_pages = pdf, doc_release = rel, doc_state = Open\<rparr>),
        next_handle := Suc (next_handle r)\<rparr>)"

text \<open>Modelled from the spec: \<open>OpenFile(path, password) -> Document|error\<close>
  (section 6); a failed open registers nothing and returns no handle (section 4.3).\<close>

definition sbr_PdfDocumentOpenFile ::
  "engine \<Rightarrow> registry \<Rightarrow> string \<Rightarrow> string \<Rightarrow> (error + handle) \<times> registry" where
  "sbr_PdfDocumentOpenFile eng r utf8FileName utf8Password =
     (case parse_file eng utf8FileName utf8Password of
        None \<Rightarrow> (Inl OpenError, r)
      | Some pdf \<Rightarrow> (let (h, r') = register_document r pdf None in (Inr h, r')))"

text \<open>Modelled from the spec: \<open>OpenMemory(data, size, password) -> Document|error\<close>
  (section 6); \<open>data\<close> is the block of \<open>size\<close> bytes.\<close>

definition sbr_PdfDocumentOpenMemory ::
  "engine \<Rightarrow> registry \<Rightarrow> byte list \<Rightarrow> string \<Rightarrow> (error + handle) \<times> registry" where
  "sbr_PdfDocumentOpenMemory eng r data utf8Password =
     (case parse_memory eng data utf8Password of
        None \<Rightarrow> (Inl OpenError, r)
      | Some pdf \<Rightarrow> (let (h, r') = register_document r pdf None in (Inr h, r')))"

text \<open>Modelled from the spec: \<open>OpenCustom(context, size, readCb, releaseCb, password)\<close>
  (sections 4.2 and 6). The source is accepted with the call. If the construction of the
  document fails, \<open>release\<close> is invoked immediately and no handle is registered; the
  handle number the call would have returned is used up, and names the source in the
  record of the callback. Otherwise the Document owns the release callback until it is
  closed.\<close>

definition sbr_PdfDocumentOpenCustom ::
  "engine \<Rightarrow> registry \<Rightarrow> cb_context \<Rightarrow> nat \<Rightarrow> (nat \<Rightarrow> nat \<Rightarrow> byte list) \<Rightarrow> callback \<Rightarrow> string \<Rightarrow>
   (error + handle) \<times> registry" where
  "sbr_PdfDocumentOpenCustom eng r ctx sz read release utf8Password =
     (case parse_custom eng sz read utf8Password of
        None \<Rightarrow>
          (Inl OpenError,
           r\<lparr>next_handle := Suc (next_handle r),
             released := released r @ [SourceReleased (next_handle r) release ctx]\<rparr>)
      | Some pdf \<Rightarrow>
          (let (h, r') = register_document r pdf (Some (release, ctx)) in (Inr h, r')))"

text \<open>Modelled from the spec: the release hook of a Document, invoked when it is closed
  (section 4.2).\<close>

definition source_events :: "handle \<Rightarrow> document \<Rightarrow> event list" where
  "source_events h d =
     (case doc_release d of None \<Rightarrow> [] | Some (cb, ctx) \<Rightarrow> [SourceReleased h cb ctx])"

text \<open>Modelled from the spec: \<open>Close(Document)\<close> (sections 4.3 and 6): \<open>Open \<rightarrow> Closed\<close>,
  releasing the resource and with it the custom source; on a handle that is closed or
  was never opened, \<open>DoubleCloseError\<close> and nothing else. The declaration returns
  \<^verbatim>\<open>void\<close>; the error is the outcome the spec names for the call.\<close>

definition sbr_PdfDocumentClose :: "registry \<Rightarrow> handle \<Rightarrow> (error + unit) \<times> registry" where
  "sbr_PdfDocumentClose r doc =
     (case documents r doc of
        None \<Rightarrow> (Inl DoubleCloseError, r)
      | Some d \<Rightarrow>
          if doc_state d \<noteq> Open then (Inl DoubleCloseError, r)
          else (Inr (),
                r\<lparr>documents := (documents r)(doc \<mapsto> d\<lparr>doc_state := Closed\<rparr>),
                  released := released r @ source_events doc d\<rparr>))"

text \<open>Modelled from the spec: \<open>GetPageCount(Document) -> int\<close> (section 6), an accessor:
  \<open>InvalidHandleError\<close> on a handle that is not open (section 4.3).\<close>

definition sbr_PdfDocumentGetPageCount :: "registry \<Rightarrow> handle \<Rightarrow> error + int" where
  "sbr_PdfDocumentGetPageCount r doc =
     (case documents r doc of
        None \<Rightarrow> Inl InvalidHandleError
      | Some d \<Rightarrow>
          if doc_state d \<noteq> Open then Inl InvalidHandleError
          else Inr (int (length (doc_pages d))))"

text \<open>Modelled from the spec: \<open>LoadPage(Document, index) -> Page|error\<close> (section 6),
  with a zero-based page index (section 3).\<close>

definition sbr_PdfDocumentLoadPage ::
  "registry \<Rightarrow> handle \<Rightarrow> int \<Rightarrow> (error + handle) \<times> registry" where
  "sbr_PdfDocumentLoadPage r doc pageIndex =
     (case documents r doc of
        None \<Rightarrow> (Inl InvalidHandleError, r)
      | Some d \<Rightarrow>
          if doc_state d \<noteq> Open then (Inl InvalidHandleError, r)
          else if pageIndex < 0 \<or> int (length (doc_pages d)) \<le> pageIndex then (Inl OpenError, r)
          else (Inr (next_handle r),
                r\<lparr>pages := (pages r)(next_handle r \<mapsto>
                      \<lparr>page_owner = doc, page_data = doc_pages d ! nat pageIndex,
                       page_state = Open\<rparr>),
                  next_handle := Suc (next_handle r)\<rparr>))"

text \<open>Modelled from the spec: \<open>Close(Page)\<close> (sections 4.3 and 6).\<close>

definition sbr_PdfPageClose :: "registry \<Rightarrow> handle \<Rightarrow> (error + unit) \<times> registry" where
  "sbr_PdfPageClose r pg =
     (case pages r pg of
        None \<Rightarrow> (Inl DoubleCloseError, r)
      | Some p \<Rightarrow>
          if page_state p \<noteq> Open then (Inl DoubleCloseError, r)
          else (Inr (), r\<lparr>pages := (pages r)(pg \<mapsto> p\<lparr>page_state := Closed\<rparr>)\<rparr>))"

text \<open>Modelled from the spec: an accessor of a Page (section 4.3): the value \<open>f\<close> of
  an open Page, \<open>InvalidHandleError\<close> for any other handle.\<close>

definition page_get :: "registry \<Rightarrow> handle \<Rightarrow> (pdf_page \<Rightarrow> 'a) \<Rightarrow> error + 'a" where
  "page_get r pg f =
     (case pages r pg of
        None \<Rightarrow> Inl InvalidHandleError
      | Some p \<Rightarrow> if page_status r pg \<noteq> Open then Inl InvalidHandleError else Inr (f (page_data p)))"

text \<open>Modelled from the spec: \<open>GetWidth(Page) -> double\<close> (section 6).\<close>

definition sbr_PdfPageGetWidth :: "registry \<Rightarrow> handle \<Rightarrow> error + real" where
  "sbr_PdfPageGetWidth r pg = page_get r pg page_width"

text \<open>Modelled from the spec: \<open>GetHeight(Page) -> double\<close> (section 6).\<close>

definition sbr_PdfPageGetHeight :: "registry \<Rightarrow> handle \<Rightarrow> error + real" where
  "sbr_PdfPageGetHeight r pg = page_get r pg page_height"

text \<open>Modelled from the spec: \<open>GetRotation(Page) -> int\<close> (section 6).\<close>

definition sbr_PdfPageGetRotation :: "registry \<Rightarrow> handle \<Rightarrow> error + int" where
  "sbr_PdfPageGetRotation r pg = page_get r pg page_rotation"

text \<open>Modelled from the spec:
  \<open>Create(width, height, format, stride, scan0, releaseCb, context) -> Bitmap\<close>
  (section 6). The release callback is optional (section 3): a null callback is none.\<close>

definition sbr_PdfBitmapCreate ::
  "registry \<Rightarrow> int \<Rightarrow> int \<Rightarrow> sbr_PixelFormat \<Rightarrow> int \<Rightarrow> nat \<Rightarrow> callback \<Rightarrow> cb_context \<Rightarrow>
   handle \<times> registry" where
  "sbr_PdfBitmapCreate r width height format stride scan0 cb ctx =
     (next_handle r,
      r\<lparr>bitmaps := (bitmaps r)(next_handle r \<mapsto>
            \<lparr>bmp_width = width, bmp_height = height, bmp_format = format,
             bmp_stride = stride, bmp_scan0 = scan0,
             bmp_release = (if cb = 0 then None else Some (cb, ctx)),
             bmp_state = Open\<rparr>),
        next_handle := Suc (next_handle r)\<rparr>)"

text \<open>Modelled from the spec: the release path of a Bitmap (section 3).\<close>

definition bitmap_events :: "handle \<Rightarrow> bitmap \<Rightarrow> event list" where
  "bitmap_events h b =
     (case bmp_release b of None \<Rightarrow> [] | Some (cb, ctx) \<Rightarrow> [BitmapReleased h cb ctx])"

text \<open>Modelled from the spec: \<open>Release(Bitmap)\<close> (section 6), the close of the Bitmap
  class of handles (section 4.3); the release callback is invoked when the Bitmap is
  released (section 3).\<close>

definition sbr_PdfBitmapRelease :: "registry \<Rightarrow> handle \<Rightarrow> (error + unit) \<times> registry" where
  "sbr_PdfBitmapRelease r bmp =
     (case bitmaps r bmp of
        None \<Rightarrow> (Inl DoubleCloseError, r)
      | Some b \<Rightarrow>
          if bmp_state b \<noteq> Open then (Inl DoubleCloseError, r)
          else (Inr (),
                r\<lparr>bitmaps := (bitmaps r)(bmp \<mapsto> b\<lparr>bmp_state := Closed\<rparr>),
                  released := released r @ bitmap_events bmp b\<rparr>))"

text \<open>Modelled from the spec: an accessor of a Bitmap (section 4.3): the value \<open>f\<close> of
  an open Bitmap, \<open>InvalidHandleError\<close> for any other handle.\<close>

definition bitmap_get :: "registry \<Rightarrow> handle \<Rightarrow> (bitmap \<Rightarrow> 'a) \<Rightarrow> error + 'a" where
  "bitmap_get r bmp f =
     (case bitmaps r bmp of
        None \<Rightarrow> Inl InvalidHandleError
      | Some b \<Rightarrow> if bmp_state b \<noteq> Open then Inl InvalidHandleError else Inr (f b))"

text \<open>Modelled from the spec: \<open>GetPixelFormat\<close> of a Bitmap (section 6).\<close>

definition sbr_PdfBitmapGetPixelFormat :: "registry \<Rightarrow> handle \<Rightarrow> error + sbr_PixelFormat" where
  "sbr_PdfBitmapGetPixelFormat r bmp = bitmap_get r bmp bmp_format"

text \<open>Modelled from the spec: \<open>GetScan0Pointer\<close> of a Bitmap (section 6).\<close>

definition sbr_PdfBitmapGetScan0Pointer :: "registry \<Rightarrow> handle \<Rightarrow> error + nat" where
  "sbr_PdfBitmapGetScan0Pointer r bmp = bitmap_get r bmp bmp_scan0"

text \<open>Modelled from the spec: \<open>GetStride\<close> of a Bitmap (section 6).\<close>

definition sbr_PdfBitmapGetStride :: "registry \<Rightarrow> handle \<Rightarrow> error + int" where
  "sbr_PdfBitmapGetStride r bmp = bitmap_get r bmp bmp_stride"

text \<open>Modelled from the spec: \<open>GetWidth\<close> of a Bitmap (section 6).\<close>

definition sbr_PdfBitmapGetWidth :: "registry \<Rightarrow> handle \<Rightarrow> error + int" where
  "sbr_PdfBitmapGetWidth r bmp = bitmap_get r bmp bmp_width"

text \<open>Modelled from the spec: \<open>GetHeight\<close> of a Bitmap (section 6).\<close>

definition sbr_PdfBitmapGetHeight :: "registry \<Rightarrow> handle \<Rightarrow> error + int" where
  "sbr_PdfBitmapGetHeight r bmp = bitmap_get r bmp bmp_height"

text \<open>Modelled from the spec: what a render call comes to (section 7): it returns its
  \<^verbatim>\<open>int\<close> code, or, when the caller has set the no-catch flag, a fault of the engine
  propagates to the caller instead.\<close>

datatype render_outcome = Return int | EngineFault

text \<open>Modelled from the spec:
  \<open>Render(page, bitmap, x, y, width, height, rotation, flags) -> int\<close> (sections 4.4
  and 6), 0 being the failure code. The handles and the rectangle are validated before
  the engine is invoked. The content of the page is rotated as requested and placed into
  the destination rectangle of the bitmap's pixel memory, which is changed in place;
  the rotation stored in the page takes no part. A fault of the engine is caught and
  reported as failure unless \<^verbatim>\<open>sbr_rfNoCatch\<close> is set (section 7).\<close>

definition sbr_PdfPageRender ::
  "engine \<Rightarrow> registry \<Rightarrow> handle \<Rightarrow> handle \<Rightarrow> int \<Rightarrow> int \<Rightarrow> int \<Rightarrow> int \<Rightarrow>
   sbr_RotateClockwise \<Rightarrow> uint \<Rightarrow> render_outcome \<times> registry" where
  "sbr_PdfPageRender eng r pg bmp x y width height rot flags =
     (case pages r pg of
        None \<Rightarrow> (Return 0, r)
      | Some p \<Rightarrow>
          (case bitmaps r bmp of
             None \<Rightarrow> (Return 0, r)
           | Some b \<Rightarrow>
               if page_status r pg \<noteq> Open \<or> bmp_state b \<noteq> Open \<or> width \<le> 0 \<or> height \<le> 0
               then (Return 0, r)
               else
                 (case place eng (rotate_content eng rot (page_content (page_data p)))
                         (x, y, width, height) flags (pixels r (bmp_scan0 b)) of
                    None \<Rightarrow> (if flag_set flags sbr_rfNoCatch then EngineFault else Return 0, r)
                  | Some px \<Rightarrow> (Return 1, r\<lparr>pixels := (pixels r)(bmp_scan0 b := px)\<rparr>))))"

text \<open>Modelled from the spec: the calls of section 6 that can change the registry,
  with their arguments.\<close>

datatype op =
  OpenFile string string
| OpenMemory "byte list" string
| OpenCustom cb_context nat "nat \<Rightarrow> nat \<Rightarrow> byte list" callback string
| DocumentClose handle
| LoadPage handle int
| PageClose handle
| BitmapCreate int int sbr_PixelFormat int nat callback cb_context
| BitmapRelease handle
| Render handle handle int int int int sbr_RotateClockwise uint

text \<open>Modelled from the spec: the registry after one call of the host; the value the
  call returns is dropped.\<close>

fun step :: "engine \<Rightarrow> op \<Rightarrow> registry \<Rightarrow> registry" where
  "step eng (OpenFile name pw) r = snd (sbr_PdfDocumentOpenFile eng r name pw)"
| "step eng (OpenMemory data pw) r = snd (sbr_PdfDocumentOpenMemory eng r data pw)"
| "step eng (OpenCustom ctx sz read release pw) r =
     snd (sbr_PdfDocumentOpenCustom eng r ctx sz read release pw)"
| "step eng (DocumentClose doc) r = snd (sbr_PdfDocumentClose r doc)"
| "step eng (LoadPage doc i) r = snd (sbr_PdfDocumentLoadPage r doc i)"
| "step eng (PageClose pg) r = snd (sbr_PdfPageClose r pg)"
| "step eng (BitmapCreate w h f s scan0 cb ctx) r = snd (sbr_PdfBitmapCreate r w h f s scan0 cb ctx)"
| "step eng (BitmapRelease bmp) r = snd (sbr_PdfBitmapRelease r bmp)"
| "step eng (Render pg bmp x y w h rot flags) r =
     snd (sbr_PdfPageRender eng r pg bmp x y w h rot flags)"

text \<open>Modelled from the spec: the registry after a sequence of calls, one at a time
  (section 5: synchronous, one call at a time).\<close>

definition run :: "engine \<Rightarrow> op list \<Rightarrow> registry \<Rightarrow> registry" where
  "run eng ops r = fold (step eng) ops r"

text \<open>Modelled from the spec: the release calls made for one custom source among the
  callbacks invoked so far (section 4.2).\<close>

fun source_released :: "handle \<Rightarrow> event list \<Rightarrow> event list" where
  "source_released h [] = []"
| "source_released h (SourceReleased k cb ctx # es) =
     (if k = h then SourceReleased k cb ctx # source_released h es else source_released h es)"
| "source_released h (BitmapReleased k cb ctx # es) = source_released h es"

text \<open>Modelled from the spec: the release calls made for one bitmap among the
  callbacks invoked so far (section 3).\<close>

fun bitmap_released :: "handle \<Rightarrow> event list \<Rightarrow> event list" where
  "bitmap_released h [] = []"
| "bitmap_released h (BitmapReleased k cb ctx # es) =
     (if k = h then BitmapReleased k cb ctx # bitmap_released h es else bitmap_released h es)"
| "bitmap_released h (SourceReleased k cb ctx # es) = bitmap_released h es"

text \<open>Modelled from the spec: the invariant behind "release fires exactly once"
  (sections 3 and 4.2), for the registries a host can reach: a handle not yet given out
  names nothing and has had no callback; for a registered Document or Bitmap the release
  calls made so far are none while it is open and exactly its own release hook once it
  is closed.\<close>

definition registry_ok :: "registry \<Rightarrow> bool" where
  "registry_ok r =
     ((\<forall>k. next_handle r \<le> k \<longrightarrow>
          documents r k = None \<and> bitmaps r k = None \<and>
          source_released k (released r) = [] \<and> bitmap_released k (released r) = []) \<and>
      (\<forall>k d. documents r k = Some d \<longrightarrow>
          doc_state d \<noteq> Uninitialized \<and>
          source_released k (released r) =
            (if doc_state d = Closed then source_events k d else [])) \<and>
      (\<forall>k b. bitmaps r k = Some b \<longrightarrow>
          bmp_state b \<noteq> Uninitialized \<and>
          bitmap_released k (released r) =
            (if bmp_state b = Closed then bitmap_events k b else [])))"

text \<open>Modelled from the spec: the page of the concrete scenario of section 8, 612 by
  792 points.\<close>

definition scenario_page :: pdf_page where
  "scenario_page = \<lparr>page_width = 612, page_height = 792, page_rotation = 0, page_content = 7\<rparr>"

text \<open>Modelled from the spec: an engine for the concrete scenario of section 8: every
  in-memory input with no password decodes to a document of that one page; a custom
  source decodes to the same document unless its size is 0; nothing else decodes.
  Rotating adds the quarter turns to the number that stands for the content, and placing
  leaves that number as the one byte of the pixel memory.\<close>

definition scenario_engine :: engine where
  "scenario_engine =
     \<lparr>parse_file = (\<lambda>name pw. None),
      parse_memory = (\<lambda>data pw. if pw = [] then Some [scenario_page] else None),
      parse_custom = (\<lambda>sz read pw. if sz = 0 then None else Some [scenario_page]),
      rotate_content = (\<lambda>rot c. c + nat (rotate_value rot)),
      place = (\<lambda>c rect flags px. Some [of_nat c])\<rparr>"

text \<open>Modelled from the spec: the registry of the concrete scenario of section 8, after
  two documents are opened from memory (handles 1 and 2), page 0 of the first is loaded
  (handle 3) and a bitmap of 612 by 792 BGRA pixels is created (handle 4).\<close>

definition scenario_registry :: registry where
  "scenario_registry =
     run scenario_engine
       [OpenMemory [] [], OpenMemory [] [], LoadPage 1 0,
        BitmapCreate 612 792 sbr_PixelFormat_bgra 2448 4096 0 0]
       empty_registry"

section \<open>Render flags are independent single bits\<close>

lemma sbr_RenderFlags_distinct: "distinct sbr_RenderFlags"
  by (simp add: sbr_RenderFlags_def sbr_rf_defs)

lemma sbr_RenderFlags_single_bit: "list_all single_bit sbr_RenderFlags"
  by (simp add: sbr_RenderFlags_def sbr_rf_defs single_bit_def)

lemma sbr_RenderFlags_self: "f \<in> set sbr_RenderFlags \<Longrightarrow> f \<noteq> 0"
  by (auto simp: sbr_RenderFlags_def sbr_rf_defs)

lemma sbr_RenderFlags_disjoint:
  "f \<in> set sbr_RenderFlags \<Longrightarrow> g \<in> set sbr_RenderFlags \<Longrightarrow> f \<noteq> g \<Longrightarrow> g AND f = 0"
  by (auto simp: sbr_RenderFlags_def sbr_rf_defs)

lemma flag_set_combine:
  assumes f: "f \<in> set sbr_RenderFlags"
  shows "set fs \<subseteq> set sbr_RenderFlags \<Longrightarrow> flag_set (combine fs) f = (f \<in> set fs)"
proof (induction fs)
  case Nil
  show ?case by (simp add: flag_set_def)
next
  case (Cons g fs)
  then have g: "g \<in> set sbr_RenderFlags" and fs: "set fs \<subseteq> set sbr_RenderFlags"
    by simp_all
  have split: "(g OR combine fs) AND f = (g AND f) OR (combine fs AND f)"
    by (simp add: bit.conj_disj_distrib2)
  show ?case
  proof (cases "g = f")
    case True
    have "f OR (combine fs AND f) = f"
      by (rule bit_word_eqI) (auto simp: bit_or_iff bit_and_iff)
    with True split sbr_RenderFlags_self [OF f] show ?thesis
      by (simp add: flag_set_def)
  next
    case False
    with sbr_RenderFlags_disjoint [OF f g] have "g AND f = 0" by simp
    with split Cons.IH [OF fs] False show ?thesis
      by (auto simp: flag_set_def)
  qed
qed

lemma combine_set_eq:
  assumes "set fs = set gs"
  shows "combine fs = combine gs"
proof (rule bit_word_eqI)
  fix n
  have bit_combine: "bit (combine hs) n = (\<exists>h \<in> set hs. bit h n)" for hs
    by (induction hs) (auto simp: bit_or_iff)
  show "bit (combine fs) n = bit (combine gs) n"
    by (simp add: bit_combine assms)
qed

lemma default_behaviour_combine:
  assumes "set fs \<subseteq> set sbr_RenderFlags"
  shows "default_behaviour (combine fs) =
     (sbr_rfNoSmoothText \<notin> set fs \<and> sbr_rfNoSmoothImage \<notin> set fs \<and>
      sbr_rfNoSmoothPath \<notin> set fs \<and> sbr_rfNoWhiteFill \<notin> set fs \<and> sbr_rfNoCatch \<notin> set fs)"
proof -
  have "sbr_rfNoSmoothText \<in> set sbr_RenderFlags" "sbr_rfNoSmoothImage \<in> set sbr_RenderFlags"
    "sbr_rfNoSmoothPath \<in> set sbr_RenderFlags" "sbr_rfNoWhiteFill \<in> set sbr_RenderFlags"
    "sbr_rfNoCatch \<in> set sbr_RenderFlags"
    by (simp_all add: sbr_RenderFlags_def)
  then show ?thesis
    using assms
    by (simp add: default_behaviour_def smooth_text_def smooth_image_def smooth_path_def
        white_fill_def catch_exceptions_def flag_set_combine)
qed

text \<open>
  C5. The recognised render flags are pairwise distinct values with a single bit each.
  For masks \<open>combine fs\<close> built by bitwise OR from recognised flags: a recognised flag
  \<open>f\<close> tests as set exactly when it was one of the flags combined, whatever the others
  are (independence); the mask depends only on which flags were combined, not on their
  order or repetition, and OR-ing two masks gives the mask of both selections; and the
  default behaviour (anti-aliasing of text, images and paths, the white fill, and the
  interception of exceptions) is in force exactly when none of the five flags that
  switch it off was combined, in particular for the empty mask 0.
\<close>

theorem render_flags_independent:
  assumes "set fs \<subseteq> set sbr_RenderFlags" and "f \<in> set sbr_RenderFlags"
  shows "distinct sbr_RenderFlags \<and> list_all single_bit sbr_RenderFlags \<and>
     flag_set (combine fs) f = (f \<in> set fs) \<and>
     (set fs = set gs \<longrightarrow> combine fs = combine gs) \<and>
     combine (fs @ gs) = combine fs OR combine gs \<and>
     combine (fs @ gs) = combine (gs @ fs) \<and>
     default_behaviour 0 \<and>
     default_behaviour (combine fs) =
       (sbr_rfNoSmoothText \<notin> set fs \<and> sbr_rfNoSmoothImage \<notin> set fs \<and>
        sbr_rfNoSmoothPath \<notin> set fs \<and> sbr_rfNoWhiteFill \<notin> set fs \<and>
        sbr_rfNoCatch \<notin> set fs)"
proof -
  have app: "combine (hs @ ks) = combine hs OR combine ks" for hs ks
    by (induction hs) (simp_all add: or.assoc)
  have comm: "combine (fs @ gs) = combine (gs @ fs)"
    by (simp add: app or.commute)
  have zero: "default_behaviour 0"
    by (simp add: default_behaviour_def smooth_text_def smooth_image_def smooth_path_def
        white_fill_def catch_exceptions_def flag_set_def)
  from assms have mem: "flag_set (combine fs) f = (f \<in> set fs)"
    by (simp add: flag_set_combine)
  have perm: "set fs = set gs \<longrightarrow> combine fs = combine gs"
    using combine_set_eq [of fs gs] by blast
  note dflt = default_behaviour_combine [OF assms(1)]
  show ?thesis
    by (intro conjI sbr_RenderFlags_distinct sbr_RenderFlags_single_bit mem perm app comm
        zero dflt)
qed

theorem render_flags_independent_witness:
  "set [sbr_rfAnnot, sbr_rfNoWhiteFill] \<subseteq> set sbr_RenderFlags \<and>
   sbr_rfNoWhiteFill \<in> set sbr_RenderFlags \<and>
   flag_set (combine [sbr_rfAnnot, sbr_rfNoWhiteFill]) sbr_rfNoWhiteFill \<and>
   combine [sbr_rfAnnot, sbr_rfNoWhiteFill] = combine [sbr_rfNoWhiteFill, sbr_rfAnnot] \<and>
   combine [sbr_rfAnnot, sbr_rfNoWhiteFill] = 0x21 \<and>
   \<not> default_behaviour (combine [sbr_rfAnnot, sbr_rfNoWhiteFill])"
proof -
  have h1: "set [sbr_rfAnnot, sbr_rfNoWhiteFill] \<subseteq> set sbr_RenderFlags"
    by (simp add: sbr_RenderFlags_def)
  have h2: "sbr_rfNoWhiteFill \<in> set sbr_RenderFlags"
    by (simp add: sbr_RenderFlags_def)
  have v: "combine [sbr_rfAnnot, sbr_rfNoWhiteFill] = 0x21"
    by (simp add: sbr_rf_defs)
  have s: "set [sbr_rfAnnot, sbr_rfNoWhiteFill] = set [sbr_rfNoWhiteFill, sbr_rfAnnot]"
    by auto
  note t = render_flags_independent [OF h1 h2, of "[sbr_rfNoWhiteFill, sbr_rfAnnot]"]
  from t have a: "flag_set (combine [sbr_rfAnnot, sbr_rfNoWhiteFill]) sbr_rfNoWhiteFill"
    by simp
  from t s have b: "combine [sbr_rfAnnot, sbr_rfNoWhiteFill] = combine [sbr_rfNoWhiteFill, sbr_rfAnnot]"
    by blast
  from t have c: "\<not> default_behaviour (combine [sbr_rfAnnot, sbr_rfNoWhiteFill])"
    by simp
  show ?thesis
    by (intro conjI h1 h2 a b v c)
qed

section \<open>The plugin's method handler and lifecycle\<close>

lemma HandleMethodCall_calls:
  "snd (HandleMethodCall engine mc calls) =
     calls @ (if method_name mc = ''file'' then [call_sbr_PdfDocumentOpenFile (engine calls)] else [])"
  by (simp add: HandleMethodCall_def Let_def)

lemma handle_calls_trace:
  "\<exists>ks. snd (handle_calls engine mcs calls) = calls @ ks \<and>
     call_sbr_Initialize \<notin> set ks \<and> call_sbr_Finalize \<notin> set ks \<and>
     (\<forall>h. call_sbr_PdfDocumentClose h \<notin> set ks) \<and>
     length ks = length (filter (\<lambda>mc. method_name mc = ''file'') mcs)"
proof (induction mcs arbitrary: calls)
  case Nil
  show ?case by simp
next
  case (Cons mc mcs)
  define calls' where "calls' = snd (HandleMethodCall engine mc calls)"
  from Cons.IH [of calls'] obtain ks where ks:
    "snd (handle_calls engine mcs calls') = calls' @ ks"
    "call_sbr_Initialize \<notin> set ks" "call_sbr_Finalize \<notin> set ks"
    "\<forall>h. call_sbr_PdfDocumentClose h \<notin> set ks"
    "length ks = length (filter (\<lambda>mc. method_name mc = ''file'') mcs)"
    by blast
  have step: "snd (handle_calls engine (mc # mcs) calls) = snd (handle_calls engine mcs calls')"
    by (simp add: calls'_def split: prod.splits)
  show ?case
  proof (cases "method_name mc = ''file''")
    case True
    then have "calls' = calls @ [call_sbr_PdfDocumentOpenFile (engine calls)]"
      by (simp add: calls'_def HandleMethodCall_calls)
    with ks step True show ?thesis
      by (intro exI [of _ "call_sbr_PdfDocumentOpenFile (engine calls) # ks"]) simp
  next
    case False
    then have "calls' = calls"
      by (simp add: calls'_def HandleMethodCall_calls)
    with ks step False show ?thesis
      by (intro exI [of _ ks]) simp
  qed
qed

text \<open>
  C10. The response of the handler and the engine calls it makes depend on the method
  name alone, never on the arguments of the call: "file" calls
  \<^verbatim>\<open>sbr_PdfDocumentOpenFile\<close> once and responds Success with the returned handle cast
  to a 32-bit unsigned integer; "asset", "data" and "close" respond Success with the
  value 0 and make no engine call (nothing is opened or closed); every other name
  responds NotImplemented and makes no engine call.
\<close>

theorem HandleMethodCall_by_name:
  "(method_name mc = method_name mc' \<longrightarrow>
      HandleMethodCall engine mc calls = HandleMethodCall engine mc' calls) \<and>
   (method_name mc = ''file'' \<longrightarrow>
      HandleMethodCall engine mc calls =
        (Success (UInt32 (ucast (engine calls))), calls @ [call_sbr_PdfDocumentOpenFile (engine calls)])) \<and>
   (method_name mc \<in> {''asset'', ''data'', ''close''} \<longrightarrow>
      HandleMethodCall engine mc calls = (Success (Int32 0), calls)) \<and>
   (method_name mc \<notin> {''file'', ''asset'', ''data'', ''close''} \<longrightarrow>
      HandleMethodCall engine mc calls = (NotImplemented, calls))"
  by (auto simp: HandleMethodCall_def Let_def)

theorem HandleMethodCall_by_name_witness:
  "HandleMethodCall (\<lambda>calls. 0x12345678 :: 32 word)
      \<lparr>method_name = ''file'', arguments = String ''a.pdf''\<rparr> [call_sbr_Initialize] =
     (Success (UInt32 0x12345678), [call_sbr_Initialize, call_sbr_PdfDocumentOpenFile 0x12345678]) \<and>
   HandleMethodCall (\<lambda>calls. 0x12345678 :: 32 word)
      \<lparr>method_name = ''file'', arguments = String ''a.pdf''\<rparr> [call_sbr_Initialize] =
   HandleMethodCall (\<lambda>calls. 0x12345678 :: 32 word)
      \<lparr>method_name = ''file'', arguments = Null\<rparr> [call_sbr_Initialize] \<and>
   HandleMethodCall (\<lambda>calls. 0x12345678 :: 32 word)
      \<lparr>method_name = ''close'', arguments = Int32 7\<rparr> [call_sbr_Initialize] =
     (Success (Int32 0), [call_sbr_Initialize]) \<and>
   HandleMethodCall (\<lambda>calls. 0x12345678 :: 32 word)
      \<lparr>method_name = ''render'', arguments = Null\<rparr> [call_sbr_Initialize] =
     (NotImplemented, [call_sbr_Initialize])"
proof -
  let ?e = "\<lambda>calls :: 32 word sbr_call list. 0x12345678 :: 32 word"
  let ?c = "[call_sbr_Initialize] :: 32 word sbr_call list"
  note t1 = HandleMethodCall_by_name
    [of "\<lparr>method_name = ''file'', arguments = String ''a.pdf''\<rparr>"
        "\<lparr>method_name = ''file'', arguments = Null\<rparr>" ?e ?c]
  note t2 = HandleMethodCall_by_name
    [of "\<lparr>method_name = ''close'', arguments = Int32 7\<rparr>"
        "\<lparr>method_name = ''close'', arguments = Int32 7\<rparr>" ?e ?c]
  note t3 = HandleMethodCall_by_name
    [of "\<lparr>method_name = ''render'', arguments = Null\<rparr>"
        "\<lparr>method_name = ''render'', arguments = Null\<rparr>" ?e ?c]
  from t1 [THEN conjunct2, THEN conjunct1] have a: "HandleMethodCall ?e
      \<lparr>method_name = ''file'', arguments = String ''a.pdf''\<rparr> ?c =
     (Success (UInt32 0x12345678), [call_sbr_Initialize, call_sbr_PdfDocumentOpenFile 0x12345678])"
    by simp
  from t1 [THEN conjunct1] have b: "HandleMethodCall ?e
      \<lparr>method_name = ''file'', arguments = String ''a.pdf''\<rparr> ?c =
      HandleMethodCall ?e \<lparr>method_name = ''file'', arguments = Null\<rparr> ?c"
    by simp
  from t2 [THEN conjunct2, THEN conjunct2, THEN conjunct1] have c: "HandleMethodCall ?e
      \<lparr>method_name = ''close'', arguments = Int32 7\<rparr> ?c = (Success (Int32 0), ?c)"
    by simp
  from t3 [THEN conjunct2, THEN conjunct2, THEN conjunct2] have d: "HandleMethodCall ?e
      \<lparr>method_name = ''render'', arguments = Null\<rparr> ?c = (NotImplemented, ?c)"
    by simp
  show ?thesis
    by (intro conjI a b c d)
qed

subsection \<open>One Initialize, one Finalize\<close>

lemma open_handles_no_close:
  "\<forall>h. call_sbr_PdfDocumentClose h \<notin> set ks \<Longrightarrow>
   set (open_handles ks hs) = set hs \<union> {h. call_sbr_PdfDocumentOpenFile h \<in> set ks \<and> h \<noteq> 0}"
proof (induction ks arbitrary: hs)
  case Nil
  show ?case by simp
next
  case (Cons c ks)
  then have ih: "set (open_handles ks hs') =
      set hs' \<union> {h. call_sbr_PdfDocumentOpenFile h \<in> set ks \<and> h \<noteq> 0}" for hs'
    by simp
  from Cons.prems show ?case
    by (cases c) (auto simp: ih)
qed

lemma finalize_after_close_append:
  "call_sbr_Finalize \<notin> set ks \<Longrightarrow>
   finalize_after_close (ks @ cs) hs = finalize_after_close cs (open_handles ks hs)"
proof (induction ks arbitrary: hs)
  case Nil
  show ?case by simp
next
  case (Cons c ks)
  then have ih: "finalize_after_close (ks @ cs) hs' =
      finalize_after_close cs (open_handles ks hs')" for hs'
    by simp
  from Cons.prems show ?case
    by (cases c) (simp_all add: ih)
qed

lemma plugin_life_shape:
  "\<exists>ks. plugin_life engine mcs = call_sbr_Initialize # ks @ [call_sbr_Finalize] \<and>
     call_sbr_Initialize \<notin> set ks \<and> call_sbr_Finalize \<notin> set ks \<and>
     (\<forall>h. call_sbr_PdfDocumentClose h \<notin> set ks) \<and>
     length ks = length (filter (\<lambda>mc. method_name mc = ''file'') mcs)"
proof -
  from handle_calls_trace [of engine mcs "[call_sbr_Initialize]"] obtain ks where ks:
    "snd (handle_calls engine mcs [call_sbr_Initialize]) = [call_sbr_Initialize] @ ks"
    "call_sbr_Initialize \<notin> set ks" "call_sbr_Finalize \<notin> set ks"
    "\<forall>h. call_sbr_PdfDocumentClose h \<notin> set ks"
    "length ks = length (filter (\<lambda>mc. method_name mc = ''file'') mcs)"
    by blast
  have "plugin_life engine mcs = call_sbr_Initialize # ks @ [call_sbr_Finalize]"
    by (simp add: plugin_life_def PdfRenderPlugin_ctor_def PdfRenderPlugin_dtor_def ks(1))
  with ks show ?thesis by blast
qed

lemma fold_Deliver:
  "fold (host_step engine) (map Deliver mcs) calls = snd (handle_calls engine mcs calls)"
  by (induction mcs arbitrary: calls) (simp_all split: prod.splits)

lemma plugin_life_process:
  "plugin_life engine mcs = process_calls engine (Register # map Deliver mcs @ [Destroy])"
  by (simp add: plugin_life_def process_calls_def fold_Deliver RegisterWithRegistrar_def)

lemma host_step_counts:
  "count_list (host_step engine ev calls) call_sbr_Initialize =
     count_list calls call_sbr_Initialize + (if ev = Register then 1 else 0) \<and>
   count_list (host_step engine ev calls) call_sbr_Finalize =
     count_list calls call_sbr_Finalize + (if ev = Destroy then 1 else 0)"
  by (cases ev)
    (simp_all add: RegisterWithRegistrar_def PdfRenderPlugin_ctor_def PdfRenderPlugin_dtor_def
      HandleMethodCall_calls)

lemma fold_host_step_counts:
  "count_list (fold (host_step engine) evs calls) call_sbr_Initialize =
     count_list calls call_sbr_Initialize + count_list evs Register \<and>
   count_list (fold (host_step engine) evs calls) call_sbr_Finalize =
     count_list calls call_sbr_Finalize + count_list evs Destroy"
proof (induction evs arbitrary: calls)
  case Nil
  show ?case by simp
next
  case (Cons ev evs)
  from Cons.IH [of "host_step engine ev calls"] host_step_counts [of engine ev calls]
  show ?case by (cases ev) simp_all
qed

lemma process_counts:
  "count_list (process_calls engine evs) call_sbr_Initialize = count_list evs Register \<and>
   count_list (process_calls engine evs) call_sbr_Finalize = count_list evs Destroy"
  using fold_host_step_counts [of engine evs "[]"] by (simp add: process_calls_def)

text \<open>
  C8, as the spec states it, fails on the plugin in two ways. Finalize does not come
  after all handles are closed: after one "file" call that returned a handle, the
  destructor finalizes the engine while that handle is open, since no method of the
  plugin closes a handle. And Initialize and Finalize are not called once per process:
  every registration constructs a plugin object, so a process in which two registrars
  register the plugin initializes the engine twice and finalizes it twice.
\<close>

theorem plugin_finalize_open_handle:
  "plugin_life (\<lambda>calls. 1 :: 32 word) [\<lparr>method_name = ''file'', arguments = Null\<rparr>] =
     [call_sbr_Initialize, call_sbr_PdfDocumentOpenFile 1, call_sbr_Finalize] \<and>
   open_handles [call_sbr_Initialize, call_sbr_PdfDocumentOpenFile (1 :: 32 word)] [] = [1] \<and>
   \<not> finalize_after_close
       (plugin_life (\<lambda>calls. 1 :: 32 word) [\<lparr>method_name = ''file'', arguments = Null\<rparr>]) [] \<and>
   process_calls (\<lambda>calls. 1 :: 32 word) [Register, Register, Destroy, Destroy] =
     [call_sbr_Initialize, call_sbr_Initialize, call_sbr_Finalize, call_sbr_Finalize] \<and>
   count_list (process_calls (\<lambda>calls. 1 :: 32 word) [Register, Register, Destroy, Destroy])
     call_sbr_Initialize = 2 \<and>
   count_list (process_calls (\<lambda>calls. 1 :: 32 word) [Register, Register, Destroy, Destroy])
     call_sbr_Finalize = 2"
  by (simp add: plugin_life_def PdfRenderPlugin_ctor_def PdfRenderPlugin_dtor_def
      HandleMethodCall_def process_calls_def RegisterWithRegistrar_def)

text \<open>
  C8, amended. In the life of one plugin object (a registration, the method calls, the
  destruction) the engine is initialized exactly once, by the constructor and before
  every other engine call, and finalized exactly once, by the destructor and after every
  other engine call. Between the two the plugin makes one
  \<^verbatim>\<open>sbr_PdfDocumentOpenFile\<close> call per "file" method call and never a close call, so
  that at Finalize all handles are closed exactly when no "file" call returned a handle.
  In a process as a whole, Initialize is called once per registration of the plugin and
  Finalize once per destruction, whatever the method calls in between.
\<close>

theorem plugin_initialize_finalize_once:
  "(\<exists>ks. plugin_life engine mcs = call_sbr_Initialize # ks @ [call_sbr_Finalize] \<and>
      call_sbr_Initialize \<notin> set ks \<and> call_sbr_Finalize \<notin> set ks \<and>
      (\<forall>h. call_sbr_PdfDocumentClose h \<notin> set ks) \<and>
      length ks = length (filter (\<lambda>mc. method_name mc = ''file'') mcs)) \<and>
   count_list (plugin_life engine mcs) call_sbr_Initialize = 1 \<and>
   count_list (plugin_life engine mcs) call_sbr_Finalize = 1 \<and>
   finalize_after_close (plugin_life engine mcs) [] =
     (\<forall>h. call_sbr_PdfDocumentOpenFile h \<in> set (plugin_life engine mcs) \<longrightarrow> h = 0) \<and>
   plugin_life engine mcs = process_calls engine (Register # map Deliver mcs @ [Destroy]) \<and>
   count_list (process_calls engine evs) call_sbr_Initialize = count_list evs Register \<and>
   count_list (process_calls engine evs) call_sbr_Finalize = count_list evs Destroy"
proof -
  from plugin_life_shape [of engine mcs] obtain ks where ks:
    "plugin_life engine mcs = call_sbr_Initialize # ks @ [call_sbr_Finalize]"
    "call_sbr_Initialize \<notin> set ks" "call_sbr_Finalize \<notin> set ks"
    "\<forall>h. call_sbr_PdfDocumentClose h \<notin> set ks"
    "length ks = length (filter (\<lambda>mc. method_name mc = ''file'') mcs)"
    by blast
  have ci: "count_list (plugin_life engine mcs) call_sbr_Initialize = 1"
    using ks(2) by (simp add: ks(1) count_list_0_iff)
  have cf: "count_list (plugin_life engine mcs) call_sbr_Finalize = 1"
    using ks(3) by (simp add: ks(1) count_list_0_iff)
  have "finalize_after_close (plugin_life engine mcs) [] =
      finalize_after_close [call_sbr_Finalize] (open_handles ks [])"
    by (simp add: ks(1) finalize_after_close_append [OF ks(3)])
  also have "\<dots> = (set (open_handles ks []) = {})"
    by simp
  also have "\<dots> = (\<forall>h. call_sbr_PdfDocumentOpenFile h \<in> set ks \<longrightarrow> h = 0)"
    by (auto simp: open_handles_no_close [OF ks(4)])
  also have "\<dots> = (\<forall>h. call_sbr_PdfDocumentOpenFile h \<in> set (plugin_life engine mcs) \<longrightarrow> h = 0)"
    by (simp add: ks(1))
  finally have fin: "finalize_after_close (plugin_life engine mcs) [] =
      (\<forall>h. call_sbr_PdfDocumentOpenFile h \<in> set (plugin_life engine mcs) \<longrightarrow> h = 0)" .
  from ks have "\<exists>ks. plugin_life engine mcs = call_sbr_Initialize # ks @ [call_sbr_Finalize] \<and>
      call_sbr_Initialize \<notin> set ks \<and> call_sbr_Finalize \<notin> set ks \<and>
      (\<forall>h. call_sbr_PdfDocumentClose h \<notin> set ks) \<and>
      length ks = length (filter (\<lambda>mc. method_name mc = ''file'') mcs)"
    by blast
  with ci cf fin plugin_life_process [of engine mcs] process_counts [of engine evs]
  show ?thesis
    by blast
qed

theorem plugin_initialize_finalize_once_witness:
  "plugin_life (\<lambda>calls. 0 :: 32 word)
     [\<lparr>method_name = ''file'', arguments = Null\<rparr>, \<lparr>method_name = ''close'', arguments = Null\<rparr>] =
     [call_sbr_Initialize, call_sbr_PdfDocumentOpenFile 0, call_sbr_Finalize] \<and>
   count_list (plugin_life (\<lambda>calls. 0 :: 32 word)
     [\<lparr>method_name = ''file'', arguments = Null\<rparr>, \<lparr>method_name = ''close'', arguments = Null\<rparr>])
     call_sbr_Initialize = 1 \<and>
   finalize_after_close (plugin_life (\<lambda>calls. 0 :: 32 word)
     [\<lparr>method_name = ''file'', arguments = Null\<rparr>, \<lparr>method_name = ''close'', arguments = Null\<rparr>]) []"
proof -
  let ?e = "\<lambda>calls :: 32 word sbr_call list. 0 :: 32 word"
  let ?m = "[\<lparr>method_name = ''file'', arguments = Null\<rparr>,
             \<lparr>method_name = ''close'', arguments = Null\<rparr>]"
  have v: "plugin_life ?e ?m = [call_sbr_Initialize, call_sbr_PdfDocumentOpenFile 0, call_sbr_Finalize]"
    by (simp add: plugin_life_def PdfRenderPlugin_ctor_def PdfRenderPlugin_dtor_def
        HandleMethodCall_def)
  note t = plugin_initialize_finalize_once [of ?e ?m]
  from t have c: "count_list (plugin_life ?e ?m) call_sbr_Initialize = 1"
    by blast
  from t have "finalize_after_close (plugin_life ?e ?m) [] =
      (\<forall>h. call_sbr_PdfDocumentOpenFile h \<in> set (plugin_life ?e ?m) \<longrightarrow> h = 0)"
    by blast
  then have f: "finalize_after_close (plugin_life ?e ?m) []"
    by (simp add: v)
  show ?thesis
    by (intro conjI v c f)
qed

section \<open>The buffer helper: a round trip through the zero-copy view\<close>

lemma put_blocks: "put buf i b h = Inr h' \<Longrightarrow> blocks h' = blocks h"
  by (auto simp: put_def split: if_splits)

lemma valid_blocks: "blocks h' = blocks h \<Longrightarrow> valid h' a = valid h a"
  by (simp add: valid_def)

lemma put_bytes_blocks: "put_bytes buf i bs h = Inr h' \<Longrightarrow> blocks h' = blocks h"
proof (induction bs arbitrary: i h)
  case Nil
  then show ?case by simp
next
  case (Cons b bs)
  then show ?case
    by (auto simp: put_def split: if_splits sum.splits)
qed

lemma put_bytes_frame:
  "put_bytes buf i bs h = Inr h' \<Longrightarrow>
   \<forall>j<length bs. a \<noteq> address buf + of_nat (i + j) \<Longrightarrow> memory h' a = memory h a"
proof (induction bs arbitrary: i h)
  case Nil
  then show ?case by simp
next
  case (Cons b bs)
  from Cons.prems(1) obtain h1 where h1: "put buf i b h = Inr h1"
    and rest: "put_bytes buf (Suc i) bs h1 = Inr h'"
    by (auto split: sum.splits)
  from Cons.prems(2) have here: "a \<noteq> address buf + of_nat i"
    by (metis add.right_neutral length_greater_0_conv list.distinct(1))
  from Cons.prems(2) have later: "\<forall>j<length bs. a \<noteq> address buf + of_nat (Suc i + j)"
    by (metis Suc_less_eq add_Suc_shift length_Cons)
  from Cons.IH [OF rest later] have "memory h' a = memory h1 a" .
  also from h1 here have "\<dots> = memory h a"
    by (auto simp: put_def split: if_splits)
  finally show ?case .
qed

lemma word_of_nat_neq:
  "m < n \<Longrightarrow> n < 2 ^ LENGTH('w) \<Longrightarrow> (a :: 'w::len word) + of_nat m \<noteq> a + of_nat n"
proof
  assume mn: "m < n" and n: "n < 2 ^ LENGTH('w)" and eq: "a + of_nat m = a + of_nat n"
  from eq have "(of_nat m :: 'w word) = of_nat n" by simp
  then have "unat (of_nat m :: 'w word) = unat (of_nat n :: 'w word)" by simp
  with mn n show False by (simp add: unat_of_nat)
qed

lemma put_bytes_succeeds:
  "\<forall>j<length bs. int (i + j) < sint (capacity buf) \<and> valid h (address buf + of_nat (i + j)) \<Longrightarrow>
   \<exists>h'. put_bytes buf i bs h = Inr h'"
proof (induction bs arbitrary: i h)
  case Nil
  show ?case by simp
next
  case (Cons b bs)
  from Cons.prems have here: "int i < sint (capacity buf)" "valid h (address buf + of_nat i)"
    by force+
  define h1 where "h1 = h\<lparr>memory := (memory h)(address buf + of_nat i := b)\<rparr>"
  from here have h1: "put buf i b h = Inr h1"
    by (simp add: put_def h1_def)
  have bl: "blocks h1 = blocks h" by (simp add: h1_def)
  have "\<forall>j<length bs. int (Suc i + j) < sint (capacity buf) \<and>
      valid h1 (address buf + of_nat (Suc i + j))"
  proof (intro allI impI)
    fix j assume "j < length bs"
    then have "Suc j < length (b # bs)" by simp
    with Cons.prems have "int (i + Suc j) < sint (capacity buf) \<and>
        valid h (address buf + of_nat (i + Suc j))" by blast
    then show "int (Suc i + j) < sint (capacity buf) \<and>
        valid h1 (address buf + of_nat (Suc i + j))"
      by (simp add: valid_blocks [OF bl])
  qed
  from Cons.IH [OF this] obtain h' where "put_bytes buf (Suc i) bs h1 = Inr h'" by blast
  with h1 show ?case by simp
qed

lemma put_bytes_content:
  "put_bytes buf i bs h = Inr h' \<Longrightarrow> i + length bs \<le> 2 ^ LENGTH('w) \<Longrightarrow>
   j < length bs \<Longrightarrow> memory h' (address (buf :: 'w::len word ByteBuffer) + of_nat (i + j)) = bs ! j"
proof (induction bs arbitrary: i h j)
  case Nil
  then show ?case by simp
next
  case (Cons b bs)
  from Cons.prems(1) obtain h1 where h1: "put buf i b h = Inr h1"
    and rest: "put_bytes buf (Suc i) bs h1 = Inr h'"
    by (auto split: sum.splits)
  from Cons.prems(2) have bound: "Suc i + length bs \<le> 2 ^ LENGTH('w)" by simp
  show ?case
  proof (cases j)
    case 0
    have "\<forall>k<length bs. address buf + of_nat i \<noteq> address buf + of_nat (Suc i + k)"
    proof (intro allI impI)
      fix k assume "k < length bs"
      with bound have "i < Suc i + k" "Suc i + k < 2 ^ LENGTH('w)" by simp_all
      then show "address buf + of_nat i \<noteq> address buf + of_nat (Suc i + k)"
        by (rule word_of_nat_neq)
    qed
    from put_bytes_frame [OF rest this]
    have "memory h' (address buf + of_nat i) = memory h1 (address buf + of_nat i)" .
    also from h1 have "\<dots> = b"
      by (auto simp: put_def split: if_splits)
    finally show ?thesis using 0 by simp
  next
    case (Suc j')
    with Cons.prems(3) have "j' < length bs" by simp
    from Cons.IH [OF rest bound this] Suc show ?thesis by simp
  qed
qed

lemma get_bytes_map:
  "\<forall>j<n. int (i + j) < sint (capacity buf) \<and> valid h (address buf + of_nat (i + j)) \<Longrightarrow>
   get_bytes buf i n h = Inr (map (\<lambda>j. memory h (address buf + of_nat (i + j))) [0..<n])"
proof (induction n arbitrary: i)
  case 0
  show ?case by simp
next
  case (Suc n)
  from Suc.prems have here: "int i < sint (capacity buf)" "valid h (address buf + of_nat i)"
    by force+
  have "\<forall>j<n. int (Suc i + j) < sint (capacity buf) \<and>
      valid h (address buf + of_nat (Suc i + j))"
  proof (intro allI impI)
    fix j assume "j < n"
    then have "Suc j < Suc n" by simp
    with Suc.prems have "int (i + Suc j) < sint (capacity buf) \<and>
        valid h (address buf + of_nat (i + Suc j))" by blast
    then show "int (Suc i + j) < sint (capacity buf) \<and>
        valid h (address buf + of_nat (Suc i + j))" by simp
  qed
  from Suc.IH [OF this] have rest: "get_bytes buf (Suc i) n h =
      Inr (map (\<lambda>j. memory h (address buf + of_nat (Suc i + j))) [0..<n])" .
  have "map (\<lambda>j. memory h (address buf + of_nat (i + j))) [0..<Suc n] =
      memory h (address buf + of_nat i) #
      map (\<lambda>j. memory h (address buf + of_nat (Suc i + j))) [0..<n]"
    by (simp add: upt_conv_Cons map_Suc_upt [symmetric] ac_simps del: upt_Suc)
  with here rest show ?case
    by (simp add: get_def)
qed


lemma valid_in_block:
  assumes "(p, m) \<in> set (blocks h)" and "unat p + m \<le> 2 ^ LENGTH('w)" and "j < m"
  shows "valid h ((p :: 'w::len word) + of_nat j)"
proof -
  from assms(2,3) have j: "j < 2 ^ LENGTH('w)" by simp
  then have uj: "unat (of_nat j :: 'w word) = j"
    by (simp add: unat_of_nat)
  from assms(2,3) have "unat p + unat (of_nat j :: 'w word) < 2 ^ LENGTH('w)"
    by (simp add: uj)
  then have "unat (p + of_nat j) = unat p + j"
    by (simp add: unat_add_lem [THEN iffD1] uj)
  with assms(1,3) show ?thesis
    by (auto simp: valid_def list_ex_iff intro!: bexI [of _ "(p, m)"])
qed

lemma view_round_trip:
  fixes alloc :: "'w::len word heap \<Rightarrow> 'w word \<Rightarrow> 'w word"
  assumes ok: "malloc_ok alloc h (ucast N)"
    and nonneg: "0 \<le> sint N"
    and fits: "unat N < 2 ^ LENGTH('w)"
    and len: "length pattern \<le> unat N"
    and m: "ByteBufferHelper_malloc alloc h N = (ptr, h1)"
    and nonnull: "ptr \<noteq> 0"
    and addr0: "address buf = alloc h (ucast N)"
    and cap: "capacity buf = N"
  shows "(\<exists>h2. put_bytes buf 0 pattern h1 = Inr h2 \<and>
       get_bytes buf 0 (length pattern) h2 = Inr pattern \<and>
       map (\<lambda>j. memory h2 (alloc h (ucast N) + of_nat j)) [0..<length pattern] = pattern \<and>
       blocks h2 = blocks h1) \<and>
    (\<forall>h'. blocks h' = blocks h1 \<longrightarrow>
       get_bytes buf 0 (length pattern) h' =
         Inr (map (\<lambda>j. memory h' (alloc h (ucast N) + of_nat j)) [0..<length pattern]))"
proof -
  define p where "p = alloc h (ucast N :: 'w word)"
  from m nonnull have p0: "p \<noteq> 0"
    by (auto simp: ByteBufferHelper_malloc_def c_malloc_def Let_def p_def split: if_splits)
  from m p0 have ptr: "ptr = ucast p"
    and h1: "h1 = h\<lparr>blocks := (p, unat (ucast N :: 'w word)) # blocks h\<rparr>"
    by (auto simp: ByteBufferHelper_malloc_def c_malloc_def Let_def p_def split: if_splits)
  from fits have n: "unat (ucast N :: 'w word) = unat N"
    by (simp add: unsigned_ucast_eq take_bit_nat_eq_self)
  from addr0 have addr: "address buf = p"
    by (simp add: p_def)
  from ok p0 have space: "unat p + unat N \<le> 2 ^ LENGTH('w)"
    by (simp add: malloc_ok_def Let_def p_def [symmetric] n)
  have blk: "(p, unat N) \<in> set (blocks h1)"
    by (simp add: h1 n)
  have "sint N < 2 ^ 63"
    using sint_lt [of N] by simp
  then have "sint N < 2 ^ 64" by simp
  with nonneg have "take_bit 64 (sint N) = sint N"
    by (simp add: take_bit_int_eq_self)
  then have "uint N = sint N"
    by (simp add: uint_sint)
  then have sN: "sint N = uint N"
    by simp
  have acc: "\<forall>j<length pattern. int (0 + j) < sint (capacity buf) \<and>
      valid h' (address buf + of_nat (0 + j))" if "blocks h' = blocks h1" for h'
  proof (intro allI impI)
    fix j assume "j < length pattern"
    with len have j: "j < unat N" by simp
    from blk that have "(p, unat N) \<in> set (blocks h')" by simp
    from j have "int j < uint N" by (simp only: uint_nat of_nat_less_iff)
    then have ij: "int j < sint N" by (simp only: sN)
    from valid_in_block [OF \<open>(p, unat N) \<in> set (blocks h')\<close> space j] ij
    show "int (0 + j) < sint (capacity buf) \<and> valid h' (address buf + of_nat (0 + j))"
      by (simp add: cap addr)
  qed
  from put_bytes_succeeds [OF acc [OF refl]] obtain h2
    where h2: "put_bytes buf 0 pattern h1 = Inr h2" by blast
  have bl: "blocks h2 = blocks h1"
    by (rule put_bytes_blocks [OF h2])
  from space len have bound: "0 + length pattern \<le> 2 ^ LENGTH('w)" by simp
  have content: "map (\<lambda>j. memory h2 (address buf + of_nat (0 + j))) [0..<length pattern] = pattern"
  proof (rule nth_equalityI)
    show "length (map (\<lambda>j. memory h2 (address buf + of_nat (0 + j))) [0..<length pattern]) =
        length pattern" by simp
  next
    fix j assume "j < length (map (\<lambda>j. memory h2 (address buf + of_nat (0 + j))) [0..<length pattern])"
    then have j: "j < length pattern" by simp
    from put_bytes_content [OF h2 bound j] j
    show "map (\<lambda>j. memory h2 (address buf + of_nat (0 + j))) [0..<length pattern] ! j = pattern ! j"
      by simp
  qed
  from get_bytes_map [OF acc [OF bl]] content
  have rd: "get_bytes buf 0 (length pattern) h2 = Inr pattern" by simp
  from content have zc: "map (\<lambda>j. memory h2 (alloc h (ucast N) + of_nat j)) [0..<length pattern] = pattern"
    by (simp add: addr p_def)
  have view: "\<forall>h'. blocks h' = blocks h1 \<longrightarrow>
      get_bytes buf 0 (length pattern) h' =
        Inr (map (\<lambda>j. memory h' (alloc h (ucast N) + of_nat j)) [0..<length pattern])"
  proof (intro allI impI)
    fix h' :: "'w word heap"
    assume "blocks h' = blocks h1"
    from get_bytes_map [OF acc [OF this]]
    show "get_bytes buf 0 (length pattern) h' =
        Inr (map (\<lambda>j. memory h' (alloc h (ucast N) + of_nat j)) [0..<length pattern])"
      by (simp add: addr p_def)
  qed
  from h2 rd zc bl have "\<exists>h2. put_bytes buf 0 pattern h1 = Inr h2 \<and>
       get_bytes buf 0 (length pattern) h2 = Inr pattern \<and>
       map (\<lambda>j. memory h2 (alloc h (ucast N) + of_nat j)) [0..<length pattern] = pattern \<and>
       blocks h2 = blocks h1"
    by blast
  with view show ?thesis
    by blast
qed

lemma wrap_address:
  fixes p :: "'w::len word"
  assumes "LENGTH('w) \<le> 64"
  shows "(ByteBufferHelper_newDirectBuffer (ucast p) N :: 'w word ByteBuffer option) =
     (if sint N < 0 \<or> 2 ^ 31 - 1 < sint N then None else Some \<lparr>address = p, capacity = N\<rparr>)"
proof -
  from assms have "is_up (ucast :: 'w word \<Rightarrow> 64 word)"
    by (simp add: is_up)
  then have "(ucast (ucast p :: 64 word) :: 'w word) = p"
    by (rule ucast_up_ucast_id)
  then show ?thesis
    by (simp add: ByteBufferHelper_newDirectBuffer_def NewDirectByteBuffer_def)
qed

lemma int_range_fits:
  assumes "32 \<le> LENGTH('w::len)" and "0 \<le> sint (N :: jlong)" and "sint N \<le> 2 ^ 31 - 1"
  shows "unat N < 2 ^ LENGTH('w)"
proof -
  have "sint N < 2 ^ 64"
    using assms(3) by simp
  with assms(2) have "take_bit 64 (sint N) = sint N"
    by (simp add: take_bit_int_eq_self)
  then have "uint N = sint N"
    by (simp add: uint_sint)
  with assms(3) have "uint N < 2 ^ 31" by simp
  then have "int (unat N) < int (2 ^ 31)"
    by (simp only: uint_nat [symmetric]) simp
  then have "unat N < 2 ^ 31"
    by (simp only: of_nat_less_iff)
  moreover from assms(1) have "(2 :: nat) ^ 32 \<le> 2 ^ LENGTH('w)"
    by (rule power_increasing) simp
  ultimately show ?thesis
    by simp
qed

text \<open>
  C6, as it is stated for every size \<open>N\<close>, fails. On a 32-bit platform take
  \<open>N = 2 ^ 32 + 4\<close>: the conversion of the \<^verbatim>\<open>jlong\<close> size to \<^verbatim>\<open>size_t\<close> keeps the low
  32 bits, so \<^verbatim>\<open>malloc\<close> is asked for 4 bytes and returns a block of 4 bytes, not of
  \<open>N\<close>; no direct buffer of capacity \<open>N\<close> exists, so wrapping yields no view and the round
  trip ends there; and a view of that capacity over the block, were there one, would
  write the fifth byte of a pattern outside the block. On a 64-bit platform nothing is
  truncated, but for \<open>N = 2 ^ 31\<close> wrapping yields no view either.
\<close>

theorem round_trip_no_view:
  "malloc_ok (\<lambda>h n. 0x1000 :: 32 word) \<lparr>memory = \<lambda>a. 0, blocks = []\<rparr> (ucast (4294967300 :: jlong)) \<and>
   ByteBufferHelper_malloc (\<lambda>h n. 0x1000 :: 32 word) \<lparr>memory = \<lambda>a. 0, blocks = []\<rparr> 4294967300 =
     (0x1000, \<lparr>memory = \<lambda>a. 0, blocks = [(0x1000, 4)]\<rparr>) \<and>
   (ByteBufferHelper_newDirectBuffer 0x1000 4294967300 :: 32 word ByteBuffer option) = None \<and>
   put_bytes \<lparr>address = 0x1000 :: 32 word, capacity = 4294967300\<rparr> 0 [1, 2, 3, 4, 5]
     \<lparr>memory = \<lambda>a. 0, blocks = [(0x1000, 4)]\<rparr> = Inl InvalidMemory \<and>
   round_trip (\<lambda>h n. 0x1000 :: 32 word) \<lparr>memory = \<lambda>a. 0, blocks = []\<rparr> 4294967300 [1, 2, 3, 4, 5] =
     Inl NoBuffer \<and>
   round_trip (\<lambda>h n. 0x1000 :: 64 word) \<lparr>memory = \<lambda>a. 0, blocks = []\<rparr> 2147483648 [1] =
     Inl NoBuffer"
proof -
  let ?alloc = "\<lambda>(h :: 32 word heap) (n :: 32 word). 0x1000 :: 32 word"
  let ?h = "\<lparr>memory = \<lambda>a :: 32 word. 0 :: byte, blocks = []\<rparr>"
  let ?h1 = "\<lparr>memory = \<lambda>a :: 32 word. 0 :: byte, blocks = [(0x1000, 4)]\<rparr>"
  have ok: "malloc_ok ?alloc ?h (ucast (4294967300 :: jlong))"
    by (simp add: malloc_ok_def)
  have m: "ByteBufferHelper_malloc ?alloc ?h 4294967300 = (0x1000, ?h1)"
    by (simp add: ByteBufferHelper_malloc_def c_malloc_def)
  have nb: "(ByteBufferHelper_newDirectBuffer 0x1000 4294967300 :: 32 word ByteBuffer option) = None"
    by (simp add: ByteBufferHelper_newDirectBuffer_def NewDirectByteBuffer_def)
  have pb: "put_bytes \<lparr>address = 0x1000 :: 32 word, capacity = 4294967300\<rparr> 0 [1, 2, 3, 4, 5] ?h1 =
      Inl InvalidMemory"
    by (simp add: put_def valid_def)
  have rt: "round_trip ?alloc ?h 4294967300 [1, 2, 3, 4, 5] = Inl NoBuffer"
    by (simp add: round_trip_def m nb)
  have rt64: "round_trip (\<lambda>h n. 0x1000 :: 64 word) \<lparr>memory = \<lambda>a. 0, blocks = []\<rparr> 2147483648 [1] =
      Inl NoBuffer"
    by (simp add: round_trip_def ByteBufferHelper_malloc_def c_malloc_def
        ByteBufferHelper_newDirectBuffer_def NewDirectByteBuffer_def)
  show ?thesis
    by (intro conjI ok m nb pb rt rt64)
qed

text \<open>
  C6, amended. Let \<open>N\<close> be a size from 0 to \<^verbatim>\<open>Integer.MAX_VALUE\<close>, the capacities a direct
  buffer can have, on a platform with pointers of 32 to 64 bits. Allocate \<open>N\<close> bytes with
  \<^verbatim>\<open>ByteBufferHelper.malloc\<close> and, the allocation having succeeded, wrap the returned
  address with \<^verbatim>\<open>ByteBufferHelper.newDirectBuffer\<close>. Wrapping yields a view, and the view
  refers to the block itself: its address is the address the allocator gave and its
  capacity is \<open>N\<close>; making it changes no memory. Every pattern of at most \<open>N\<close> bytes
  written through the view is written, is read back through the view unchanged, and is
  at that moment in the block of the native heap, byte for byte; whatever the native
  heap holds in the block is what the view reads; and the round trip as a whole returns
  the pattern.
\<close>

theorem malloc_wrap_round_trip:
  fixes alloc :: "'w::len word heap \<Rightarrow> 'w word \<Rightarrow> 'w word"
  assumes lo: "32 \<le> LENGTH('w)" and width: "LENGTH('w) \<le> 64"
    and ok: "malloc_ok alloc h (ucast N)"
    and nonneg: "0 \<le> sint N" and int_max: "sint N \<le> 2 ^ 31 - 1"
    and len: "length pattern \<le> unat N"
    and m: "ByteBufferHelper_malloc alloc h N = (ptr, h1)"
    and nonnull: "ptr \<noteq> 0"
  shows "\<exists>buf. (ByteBufferHelper_newDirectBuffer ptr N :: 'w word ByteBuffer option) = Some buf \<and>
    buf = \<lparr>address = alloc h (ucast N), capacity = N\<rparr> \<and>
    (\<exists>h2. put_bytes buf 0 pattern h1 = Inr h2 \<and>
       get_bytes buf 0 (length pattern) h2 = Inr pattern \<and>
       map (\<lambda>j. memory h2 (alloc h (ucast N) + of_nat j)) [0..<length pattern] = pattern \<and>
       blocks h2 = blocks h1) \<and>
    (\<forall>h'. blocks h' = blocks h1 \<longrightarrow>
       get_bytes buf 0 (length pattern) h' =
         Inr (map (\<lambda>j. memory h' (alloc h (ucast N) + of_nat j)) [0..<length pattern])) \<and>
    round_trip alloc h N pattern = Inr pattern"
proof -
  define buf :: "'w word ByteBuffer" where "buf = \<lparr>address = alloc h (ucast N), capacity = N\<rparr>"
  from m nonnull have ptr: "ptr = ucast (alloc h (ucast N :: 'w word))"
    by (auto simp: ByteBufferHelper_malloc_def c_malloc_def Let_def split: if_splits)
  from nonneg int_max have wrap: "(ByteBufferHelper_newDirectBuffer ptr N :: 'w word ByteBuffer option) = Some buf"
    by (simp add: ptr wrap_address [OF width] buf_def)
  note fits = int_range_fits [OF lo nonneg int_max]
  have addr: "address buf = alloc h (ucast N)" and cap: "capacity buf = N"
    by (simp_all add: buf_def)
  note v = view_round_trip [OF ok nonneg fits len m nonnull addr cap]
  from v obtain h2 where h2: "put_bytes buf 0 pattern h1 = Inr h2"
    "get_bytes buf 0 (length pattern) h2 = Inr pattern"
    by blast
  from m nonnull wrap h2 have rt: "round_trip alloc h N pattern = Inr pattern"
    by (simp add: round_trip_def)
  have eq: "buf = \<lparr>address = alloc h (ucast N), capacity = N\<rparr>"
    by (simp add: buf_def)
  from wrap eq v rt show ?thesis
    by blast
qed

theorem malloc_wrap_round_trip_witness:
  "malloc_ok (\<lambda>h n. 0x1000 :: 32 word) \<lparr>memory = \<lambda>a. 0, blocks = []\<rparr> (ucast (4 :: jlong)) \<and>
   ByteBufferHelper_malloc (\<lambda>h n. 0x1000 :: 32 word) \<lparr>memory = \<lambda>a. 0, blocks = []\<rparr> 4 =
     (0x1000, \<lparr>memory = \<lambda>a. 0, blocks = [(0x1000, 4)]\<rparr>) \<and>
   (ByteBufferHelper_newDirectBuffer 0x1000 4 :: 32 word ByteBuffer option) =
     Some \<lparr>address = 0x1000, capacity = 4\<rparr> \<and>
   (\<exists>h2. put_bytes \<lparr>address = 0x1000 :: 32 word, capacity = 4\<rparr> 0 [0xDE, 0xAD, 0xBE, 0xEF]
            \<lparr>memory = \<lambda>a. 0, blocks = [(0x1000, 4)]\<rparr> = Inr h2 \<and>
      get_bytes \<lparr>address = 0x1000 :: 32 word, capacity = 4\<rparr> 0 4 h2 =
        Inr [0xDE, 0xAD, 0xBE, 0xEF]) \<and>
   round_trip (\<lambda>h n. 0x1000 :: 32 word) \<lparr>memory = \<lambda>a. 0, blocks = []\<rparr> 4
     [0xDE, 0xAD, 0xBE, 0xEF] = Inr [0xDE, 0xAD, 0xBE, 0xEF]"
proof -
  let ?alloc = "\<lambda>(h :: 32 word heap) (n :: 32 word). 0x1000 :: 32 word"
  let ?h = "\<lparr>memory = \<lambda>a :: 32 word. 0 :: byte, blocks = []\<rparr>"
  let ?h1 = "\<lparr>memory = \<lambda>a :: 32 word. 0 :: byte, blocks = [(0x1000, 4)]\<rparr>"
  let ?buf = "\<lparr>address = 0x1000 :: 32 word, capacity = 4\<rparr>"
  have ok: "malloc_ok ?alloc ?h (ucast (4 :: jlong))"
    by (simp add: malloc_ok_def)
  have m: "ByteBufferHelper_malloc ?alloc ?h 4 = (0x1000, ?h1)"
    by (simp add: ByteBufferHelper_malloc_def c_malloc_def)
  have b: "(ByteBufferHelper_newDirectBuffer 0x1000 4 :: 32 word ByteBuffer option) = Some ?buf"
    by (simp add: ByteBufferHelper_newDirectBuffer_def NewDirectByteBuffer_def)
  have lo: "32 \<le> LENGTH(32)" by simp
  have w: "LENGTH(32) \<le> 64" by simp
  have nn: "0 \<le> sint (4 :: jlong)" by simp
  have mx: "sint (4 :: jlong) \<le> 2 ^ 31 - 1" by simp
  have l: "length [0xDE, 0xAD, 0xBE, 0xEF :: byte] = 4" by simp
  have len: "length [0xDE, 0xAD, 0xBE, 0xEF :: byte] \<le> unat (4 :: jlong)" by simp
  have nz: "(0x1000 :: jlong) \<noteq> 0" by simp
  note t = malloc_wrap_round_trip [OF lo w ok nn mx len m nz]
  from t b have "\<exists>h2. put_bytes ?buf 0 [0xDE, 0xAD, 0xBE, 0xEF] ?h1 = Inr h2 \<and>
      get_bytes ?buf 0 (length [0xDE, 0xAD, 0xBE, 0xEF :: byte]) h2 = Inr [0xDE, 0xAD, 0xBE, 0xEF]"
    by auto
  then have r: "\<exists>h2. put_bytes ?buf 0 [0xDE, 0xAD, 0xBE, 0xEF] ?h1 = Inr h2 \<and>
      get_bytes ?buf 0 4 h2 = Inr [0xDE, 0xAD, 0xBE, 0xEF]"
    by (simp only: l)
  from t have rt: "round_trip ?alloc ?h 4 [0xDE, 0xAD, 0xBE, 0xEF] = Inr [0xDE, 0xAD, 0xBE, 0xEF]"
    by blast
  show ?thesis
    by (intro conjI ok m b r rt)
qed

section \<open>The handle registry: callbacks and reachable states\<close>

lemma source_released_append [simp]:
  "source_released h (xs @ ys) = source_released h xs @ source_released h ys"
  by (induction h xs rule: source_released.induct) simp_all

lemma bitmap_released_append [simp]:
  "bitmap_released h (xs @ ys) = bitmap_released h xs @ bitmap_released h ys"
  by (induction h xs rule: bitmap_released.induct) simp_all

lemma source_released_source_events [simp]:
  "source_released h (source_events k d) = (if k = h then source_events k d else [])"
  by (simp add: source_events_def split: option.splits)

lemma source_released_bitmap_events [simp]: "source_released h (bitmap_events k b) = []"
  by (simp add: bitmap_events_def split: option.splits)

lemma bitmap_released_bitmap_events [simp]:
  "bitmap_released h (bitmap_events k b) = (if k = h then bitmap_events k b else [])"
  by (simp add: bitmap_events_def split: option.splits)

lemma bitmap_released_source_events [simp]: "bitmap_released h (source_events k d) = []"
  by (simp add: source_events_def split: option.splits)

lemma source_events_state [simp]: "source_events k (d\<lparr>doc_state := s\<rparr>) = source_events k d"
  by (simp add: source_events_def)

lemma bitmap_events_state [simp]: "bitmap_events k (b\<lparr>bmp_state := s\<rparr>) = bitmap_events k b"
  by (simp add: bitmap_events_def)

lemma OpenFile_unfold:
  "sbr_PdfDocumentOpenFile eng r name pw =
     (case parse_file eng name pw of
        None \<Rightarrow> (Inl OpenError, r)
      | Some pdf \<Rightarrow> (Inr (next_handle r), snd (register_document r pdf None)))"
  by (simp add: sbr_PdfDocumentOpenFile_def register_document_def split: option.splits)

lemma OpenMemory_unfold:
  "sbr_PdfDocumentOpenMemory eng r data pw =
     (case parse_memory eng data pw of
        None \<Rightarrow> (Inl OpenError, r)
      | Some pdf \<Rightarrow> (Inr (next_handle r), snd (register_document r pdf None)))"
  by (simp add: sbr_PdfDocumentOpenMemory_def register_document_def split: option.splits)

lemma OpenCustom_unfold:
  "sbr_PdfDocumentOpenCustom eng r ctx sz read release pw =
     (case parse_custom eng sz read pw of
        None \<Rightarrow>
          (Inl OpenError,
           r\<lparr>next_handle := Suc (next_handle r),
             released := released r @ [SourceReleased (next_handle r) release ctx]\<rparr>)
      | Some pdf \<Rightarrow>
          (Inr (next_handle r), snd (register_document r pdf (Some (release, ctx)))))"
  by (simp add: sbr_PdfDocumentOpenCustom_def register_document_def split: option.splits)

lemma ok_empty: "registry_ok empty_registry"
  by (simp add: registry_ok_def empty_registry_def)

lemma ok_register: "registry_ok r \<Longrightarrow> registry_ok (snd (register_document r pdf rel))"
  unfolding registry_ok_def register_document_def
  by (auto simp: le_Suc_eq)

lemma ok_OpenFile: "registry_ok r \<Longrightarrow> registry_ok (snd (sbr_PdfDocumentOpenFile eng r name pw))"
  by (simp add: OpenFile_unfold ok_register split: option.splits)

lemma ok_OpenMemory: "registry_ok r \<Longrightarrow> registry_ok (snd (sbr_PdfDocumentOpenMemory eng r data pw))"
  by (simp add: OpenMemory_unfold ok_register split: option.splits)

lemma ok_custom_failed:
  "registry_ok r \<Longrightarrow> registry_ok (r\<lparr>next_handle := Suc (next_handle r),
     released := released r @ [SourceReleased (next_handle r) release ctx]\<rparr>)"
  unfolding registry_ok_def
  by (auto simp: le_Suc_eq)

lemma ok_OpenCustom:
  "registry_ok r \<Longrightarrow> registry_ok (snd (sbr_PdfDocumentOpenCustom eng r ctx sz read release pw))"
  by (simp add: OpenCustom_unfold ok_register ok_custom_failed split: option.splits)

lemma ok_Close: "registry_ok r \<Longrightarrow> registry_ok (snd (sbr_PdfDocumentClose r doc))"
  unfolding registry_ok_def sbr_PdfDocumentClose_def
  by (auto split: option.splits)

lemma ok_LoadPage: "registry_ok r \<Longrightarrow> registry_ok (snd (sbr_PdfDocumentLoadPage r doc i))"
  unfolding registry_ok_def sbr_PdfDocumentLoadPage_def
  by (auto simp: le_Suc_eq split: option.splits)

lemma ok_PageClose: "registry_ok r \<Longrightarrow> registry_ok (snd (sbr_PdfPageClose r pg))"
  unfolding registry_ok_def sbr_PdfPageClose_def
  by (auto split: option.splits)

lemma ok_BitmapCreate:
  "registry_ok r \<Longrightarrow> registry_ok (snd (sbr_PdfBitmapCreate r w h f s scan0 cb ctx))"
  unfolding registry_ok_def sbr_PdfBitmapCreate_def
  by (auto simp: le_Suc_eq)

lemma ok_BitmapRelease: "registry_ok r \<Longrightarrow> registry_ok (snd (sbr_PdfBitmapRelease r bmp))"
  unfolding registry_ok_def sbr_PdfBitmapRelease_def
  by (auto split: option.splits)

lemma ok_Render:
  "registry_ok r \<Longrightarrow> registry_ok (snd (sbr_PdfPageRender eng r pg bmp x y w h rot flags))"
  unfolding registry_ok_def sbr_PdfPageRender_def
  by (auto split: option.splits)

lemma ok_step: "registry_ok r \<Longrightarrow> registry_ok (step eng op r)"
  by (cases op)
    (simp_all add: ok_OpenFile ok_OpenMemory ok_OpenCustom ok_Close ok_LoadPage ok_PageClose
      ok_BitmapCreate ok_BitmapRelease ok_Render)

lemma ok_run: "registry_ok r \<Longrightarrow> registry_ok (run eng ops r)"
  unfolding run_def by (induction ops arbitrary: r) (simp_all add: ok_step)

lemma ok_fresh: "registry_ok r \<Longrightarrow> documents r h = Some d \<Longrightarrow> h < next_handle r"
  unfolding registry_ok_def by (metis not_le option.distinct(1))


lemma doc_persist_step:
  assumes "registry_ok r" and "documents r h = Some d"
  shows "\<exists>d'. documents (step eng op r) h = Some d' \<and> doc_release d' = doc_release d \<and>
     doc_pages d' = doc_pages d \<and> (doc_state d = Closed \<longrightarrow> doc_state d' = Closed)"
proof -
  from ok_fresh [OF assms] have "h \<noteq> next_handle r" by simp
  with assms(2) show ?thesis
    by (cases op)
      (auto simp: OpenFile_unfold OpenMemory_unfold OpenCustom_unfold register_document_def
        sbr_PdfDocumentClose_def sbr_PdfDocumentLoadPage_def sbr_PdfPageClose_def
        sbr_PdfBitmapCreate_def sbr_PdfBitmapRelease_def sbr_PdfPageRender_def
        split: option.splits)
qed

lemma doc_persist_run:
  "registry_ok r \<Longrightarrow> documents r h = Some d \<Longrightarrow>
   \<exists>d'. documents (run eng ops r) h = Some d' \<and> doc_release d' = doc_release d \<and>
     doc_pages d' = doc_pages d \<and> (doc_state d = Closed \<longrightarrow> doc_state d' = Closed)"
proof (induction ops arbitrary: r d)
  case Nil
  then show ?case by (simp add: run_def)
next
  case (Cons op ops)
  from doc_persist_step [OF Cons.prems, of eng op] obtain d1 where d1:
    "documents (step eng op r) h = Some d1" "doc_release d1 = doc_release d"
    "doc_pages d1 = doc_pages d" "doc_state d = Closed \<longrightarrow> doc_state d1 = Closed"
    by blast
  from Cons.IH [OF ok_step [OF Cons.prems(1)] d1(1)] obtain d' where
    "documents (run eng ops (step eng op r)) h = Some d'" "doc_release d' = doc_release d1"
    "doc_pages d' = doc_pages d1" "doc_state d1 = Closed \<longrightarrow> doc_state d' = Closed"
    by blast
  with d1 show ?case
    by (simp add: run_def)
qed

lemma close_closes:
  assumes "registry_ok r" and "documents r h = Some d"
  shows "\<exists>d'. documents (step eng (DocumentClose h) r) h = Some d' \<and> doc_state d' = Closed"
proof -
  from assms have "doc_state d \<noteq> Uninitialized"
    unfolding registry_ok_def by blast
  then have "doc_state d = Open \<or> doc_state d = Closed"
    by (cases "doc_state d") simp_all
  with assms(2) show ?thesis
    by (auto simp: sbr_PdfDocumentClose_def)
qed

lemma closed_by_run:
  "registry_ok r \<Longrightarrow> documents r h = Some d \<Longrightarrow> DocumentClose h \<in> set ops \<Longrightarrow>
   doc_status (run eng ops r) h = Closed"
proof (induction ops arbitrary: r d)
  case Nil
  then show ?case by simp
next
  case (Cons op ops)
  note ok1 = ok_step [OF Cons.prems(1), of eng op]
  show ?case
  proof (cases "op = DocumentClose h")
    case True
    from close_closes [OF Cons.prems(1,2), of eng] True obtain d1 where
      d1: "documents (step eng op r) h = Some d1" "doc_state d1 = Closed" by blast
    from doc_persist_run [OF ok1 d1(1), of eng ops] d1(2)
    show ?thesis by (auto simp: run_def doc_status_def)
  next
    case False
    with Cons.prems(3) have mem: "DocumentClose h \<in> set ops" by simp
    from doc_persist_step [OF Cons.prems(1,2), of eng op] obtain d1 where
      d1: "documents (step eng op r) h = Some d1" by blast
    from Cons.IH [OF ok1 d1 mem] show ?thesis by (simp add: run_def)
  qed
qed

lemma orphan_step:
  assumes "k < next_handle r" and "documents r k = None"
  shows "k < next_handle (step eng op r) \<and> documents (step eng op r) k = None \<and>
     source_released k (released (step eng op r)) = source_released k (released r)"
  using assms
  by (cases op)
    (auto simp: OpenFile_unfold OpenMemory_unfold OpenCustom_unfold register_document_def
      sbr_PdfDocumentClose_def sbr_PdfDocumentLoadPage_def sbr_PdfPageClose_def
      sbr_PdfBitmapCreate_def sbr_PdfBitmapRelease_def sbr_PdfPageRender_def
      split: option.splits)

lemma orphan_run:
  "k < next_handle r \<Longrightarrow> documents r k = None \<Longrightarrow>
   documents (run eng ops r) k = None \<and>
   source_released k (released (run eng ops r)) = source_released k (released r)"
proof (induction ops arbitrary: r)
  case Nil
  then show ?case by (simp add: run_def)
next
  case (Cons op ops)
  from orphan_step [OF Cons.prems, of eng op] Cons.IH [of "step eng op r"]
  show ?case by (simp add: run_def)
qed





lemma close_not_open:
  "doc_status r h \<noteq> Open \<Longrightarrow> sbr_PdfDocumentClose r h = (Inl DoubleCloseError, r)"
  by (auto simp: sbr_PdfDocumentClose_def doc_status_def split: option.splits)

lemma close_status:
  "doc_status (snd (sbr_PdfDocumentClose r h)) k =
     (if k = h \<and> doc_status r h = Open then Closed else doc_status r k)"
  by (simp add: sbr_PdfDocumentClose_def doc_status_def split: option.splits)

lemma close_other:
  "k \<noteq> h \<Longrightarrow> documents (snd (sbr_PdfDocumentClose r h)) k = documents r k"
  by (simp add: sbr_PdfDocumentClose_def split: option.splits)

lemma close_next_handle: "next_handle (snd (sbr_PdfDocumentClose r h)) = next_handle r"
  by (simp add: sbr_PdfDocumentClose_def split: option.splits)

lemma scenario_registry_eq:
  "scenario_registry =
     \<lparr>documents =
        [1 \<mapsto> \<lparr>doc_pages = [scenario_page], doc_release = None, doc_state = Open\<rparr>,
         2 \<mapsto> \<lparr>doc_pages = [scenario_page], doc_release = None, doc_state = Open\<rparr>],
      pages = [3 \<mapsto> \<lparr>page_owner = 1, page_data = scenario_page, page_state = Open\<rparr>],
      bitmaps =
        [4 \<mapsto> \<lparr>bmp_width = 612, bmp_height = 792, bmp_format = sbr_PixelFormat_bgra,
               bmp_stride = 2448, bmp_scan0 = 4096, bmp_release = None, bmp_state = Open\<rparr>],
      next_handle = 5, pixels = (\<lambda>a. []), released = []\<rparr>"
  by (simp add: scenario_registry_def run_def OpenMemory_unfold register_document_def
      sbr_PdfDocumentLoadPage_def sbr_PdfBitmapCreate_def scenario_engine_def
      empty_registry_def numeral_eq_Suc)

lemma scenario_status:
  "doc_status scenario_registry 1 = Open" "doc_status scenario_registry 2 = Open"
  "page_status scenario_registry 3 = Open" "bitmap_status scenario_registry 4 = Open"
  "doc_status scenario_registry 9 = Uninitialized"
  "page_status scenario_registry 9 = Uninitialized"
  by (simp_all add: scenario_registry_eq doc_status_def page_status_def bitmap_status_def)

lemma render_rotation_metadata:
  assumes "pages r pg = Some p"
    and "r' = r\<lparr>pages := (pages r)(pg \<mapsto> p\<lparr>page_data := (page_data p)\<lparr>page_rotation := m\<rparr>\<rparr>)\<rparr>"
  shows "fst (sbr_PdfPageRender eng r' pg bmp x y w h rot flags) =
      fst (sbr_PdfPageRender eng r pg bmp x y w h rot flags) \<and>
    pixels (snd (sbr_PdfPageRender eng r' pg bmp x y w h rot flags)) =
      pixels (snd (sbr_PdfPageRender eng r pg bmp x y w h rot flags))"
  using assms
  by (auto simp: sbr_PdfPageRender_def page_status_def doc_status_def split: option.splits)

lemma render_rotate_then_place:
  assumes "pages r pg = Some p" and "page_status r pg = Open"
    and "bitmaps r bmp = Some b" and "bmp_state b = Open" and "0 < w" and "0 < h"
    and "place eng (rotate_content eng rot (page_content (page_data p))) (x, y, w, h) flags
        (pixels r (bmp_scan0 b)) = Some px"
  shows "sbr_PdfPageRender eng r pg bmp x y w h rot flags =
     (Return 1, r\<lparr>pixels := (pixels r)(bmp_scan0 b := px)\<rparr>)"
  using assms
  by (simp add: sbr_PdfPageRender_def)

subsection \<open>Closing a Document twice\<close>

text \<open>
  C1. For every registry \<open>r\<close> and every Document handle \<open>h\<close>, whatever its state: after
  a first \<open>Close\<close> of \<open>h\<close>, a second \<open>Close\<close> of \<open>h\<close> returns \<open>DoubleCloseError\<close> and leaves
  the registry exactly as the first close left it; a \<open>Close\<close> of a handle that is not
  open, were it closed before or never opened, returns \<open>DoubleCloseError\<close> and leaves
  the registry as it is; a \<open>Close\<close> of an open handle succeeds and closes it. Any other
  Document \<open>h'\<close> that was open is open and usable after the redundant close: its page
  count is returned as before, its pages load as before, and it can be closed.
\<close>

theorem double_close:
  "sbr_PdfDocumentClose (snd (sbr_PdfDocumentClose r h)) h =
     (Inl DoubleCloseError, snd (sbr_PdfDocumentClose r h)) \<and>
   (doc_status r h \<noteq> Open \<longrightarrow> sbr_PdfDocumentClose r h = (Inl DoubleCloseError, r)) \<and>
   (doc_status r h = Open \<longrightarrow>
      fst (sbr_PdfDocumentClose r h) = Inr () \<and>
      doc_status (snd (sbr_PdfDocumentClose r h)) h = Closed) \<and>
   (h' \<noteq> h \<and> doc_status r h' = Open \<longrightarrow>
      doc_status (snd (sbr_PdfDocumentClose (snd (sbr_PdfDocumentClose r h)) h)) h' = Open \<and>
      sbr_PdfDocumentGetPageCount (snd (sbr_PdfDocumentClose (snd (sbr_PdfDocumentClose r h)) h)) h' =
        sbr_PdfDocumentGetPageCount r h' \<and>
      (\<exists>n. sbr_PdfDocumentGetPageCount r h' = Inr n) \<and>
      fst (sbr_PdfDocumentLoadPage (snd (sbr_PdfDocumentClose (snd (sbr_PdfDocumentClose r h)) h)) h' i) =
        fst (sbr_PdfDocumentLoadPage r h' i) \<and>
      fst (sbr_PdfDocumentClose (snd (sbr_PdfDocumentClose (snd (sbr_PdfDocumentClose r h)) h)) h') =
        Inr ())"
proof -
  define r1 where "r1 = snd (sbr_PdfDocumentClose r h)"
  have "doc_status r1 h \<noteq> Open"
    by (simp add: r1_def close_status)
  then have twice: "sbr_PdfDocumentClose r1 h = (Inl DoubleCloseError, r1)"
    by (rule close_not_open)
  then have r2: "snd (sbr_PdfDocumentClose r1 h) = r1"
    by simp
  have never: "doc_status r h \<noteq> Open \<longrightarrow> sbr_PdfDocumentClose r h = (Inl DoubleCloseError, r)"
    by (simp add: close_not_open)
  have once: "doc_status r h = Open \<longrightarrow>
      fst (sbr_PdfDocumentClose r h) = Inr () \<and> doc_status r1 h = Closed"
    by (auto simp: r1_def sbr_PdfDocumentClose_def doc_status_def split: option.splits)
  have third: "doc_status r1 h' = Open \<and>
      sbr_PdfDocumentGetPageCount r1 h' = sbr_PdfDocumentGetPageCount r h' \<and>
      (\<exists>n. sbr_PdfDocumentGetPageCount r h' = Inr n) \<and>
      fst (sbr_PdfDocumentLoadPage r1 h' i) = fst (sbr_PdfDocumentLoadPage r h' i) \<and>
      fst (sbr_PdfDocumentClose r1 h') = Inr ()"
    if other: "h' \<noteq> h" and usable: "doc_status r h' = Open"
  proof -
    from other have same: "documents r1 h' = documents r h'"
      by (simp add: r1_def close_other)
    from usable obtain d where d: "documents r h' = Some d" "doc_state d = Open"
      by (auto simp: doc_status_def split: option.splits)
    have st: "doc_status r1 h' = Open"
      by (simp add: doc_status_def same d)
    have cnt: "sbr_PdfDocumentGetPageCount r1 h' = sbr_PdfDocumentGetPageCount r h'"
      by (simp add: sbr_PdfDocumentGetPageCount_def same)
    have ex: "\<exists>n. sbr_PdfDocumentGetPageCount r h' = Inr n"
      by (simp add: sbr_PdfDocumentGetPageCount_def d)
    have nh: "next_handle r1 = next_handle r"
      by (simp add: r1_def close_next_handle)
    have ld: "fst (sbr_PdfDocumentLoadPage r1 h' i) = fst (sbr_PdfDocumentLoadPage r h' i)"
      by (simp add: sbr_PdfDocumentLoadPage_def same d nh)
    have cl: "fst (sbr_PdfDocumentClose r1 h') = Inr ()"
      by (simp add: sbr_PdfDocumentClose_def same d)
    show ?thesis
      by (intro conjI st cnt ex ld cl)
  qed
  from r2 have back_to_r1:
    "snd (sbr_PdfDocumentClose (snd (sbr_PdfDocumentClose r h)) h) = snd (sbr_PdfDocumentClose r h)"
    by (simp add: r1_def)
  from twice never once third show ?thesis
    unfolding back_to_r1 r1_def by blast
qed

theorem double_close_witness:
  "sbr_PdfDocumentClose (snd (sbr_PdfDocumentClose scenario_registry 1)) 1 =
     (Inl DoubleCloseError, snd (sbr_PdfDocumentClose scenario_registry 1)) \<and>
   sbr_PdfDocumentClose scenario_registry 9 = (Inl DoubleCloseError, scenario_registry) \<and>
   fst (sbr_PdfDocumentClose scenario_registry 1) = Inr () \<and>
   doc_status (snd (sbr_PdfDocumentClose (snd (sbr_PdfDocumentClose scenario_registry 1)) 1)) 2 =
     Open \<and>
   sbr_PdfDocumentGetPageCount
     (snd (sbr_PdfDocumentClose (snd (sbr_PdfDocumentClose scenario_registry 1)) 1)) 2 = Inr 1 \<and>
   fst (sbr_PdfDocumentLoadPage
     (snd (sbr_PdfDocumentClose (snd (sbr_PdfDocumentClose scenario_registry 1)) 1)) 2 0) = Inr 5"
proof -
  have ne: "(2 :: handle) \<noteq> 1" by simp
  note t1 = double_close [of scenario_registry 1 2 0]
  note t9 = double_close [of scenario_registry 9 2 0]
  from t1 have a: "sbr_PdfDocumentClose (snd (sbr_PdfDocumentClose scenario_registry 1)) 1 =
      (Inl DoubleCloseError, snd (sbr_PdfDocumentClose scenario_registry 1))"
    by blast
  have "doc_status scenario_registry 9 \<noteq> Open"
    by (simp only: scenario_status(5)) simp
  with t9 have b:
    "sbr_PdfDocumentClose scenario_registry 9 = (Inl DoubleCloseError, scenario_registry)"
    by blast
  from t1 scenario_status(1) have f: "fst (sbr_PdfDocumentClose scenario_registry 1) = Inr ()"
    by blast
  from t1 ne scenario_status(2) have c:
    "doc_status (snd (sbr_PdfDocumentClose (snd (sbr_PdfDocumentClose scenario_registry 1)) 1)) 2 =
      Open"
    by blast
  have v: "sbr_PdfDocumentGetPageCount scenario_registry 2 = Inr 1"
    by (simp add: scenario_registry_eq sbr_PdfDocumentGetPageCount_def)
  from t1 ne scenario_status(2) have
    "sbr_PdfDocumentGetPageCount
      (snd (sbr_PdfDocumentClose (snd (sbr_PdfDocumentClose scenario_registry 1)) 1)) 2 =
     sbr_PdfDocumentGetPageCount scenario_registry 2"
    by blast
  from this v have d:
    "sbr_PdfDocumentGetPageCount
      (snd (sbr_PdfDocumentClose (snd (sbr_PdfDocumentClose scenario_registry 1)) 1)) 2 = Inr 1"
    by (rule trans)
  have l: "fst (sbr_PdfDocumentLoadPage scenario_registry 2 0) = Inr 5"
    by (simp add: scenario_registry_eq sbr_PdfDocumentLoadPage_def)
  from t1 ne scenario_status(2) have
    "fst (sbr_PdfDocumentLoadPage
      (snd (sbr_PdfDocumentClose (snd (sbr_PdfDocumentClose scenario_registry 1)) 1)) 2 0) =
     fst (sbr_PdfDocumentLoadPage scenario_registry 2 0)"
    by blast
  from this l have e:
    "fst (sbr_PdfDocumentLoadPage
      (snd (sbr_PdfDocumentClose (snd (sbr_PdfDocumentClose scenario_registry 1)) 1)) 2 0) = Inr 5"
    by (rule trans)
  show ?thesis
    by (intro conjI a b f c d e)
qed

subsection \<open>Render: the failure code\<close>

text \<open>
  C2. \<open>Render\<close> returns an \<^verbatim>\<open>int\<close> code, 0 for failure and 1 for success (or, with the
  no-catch flag set, lets a fault of the engine through). It returns 0, and leaves the
  registry and with it the pixel memory as they are, whenever the page handle or the
  bitmap handle is not open or the destination rectangle has a zero or negative width or
  height; a code other than 0 is returned only for open handles and a rectangle of
  positive width and height.
\<close>

theorem render_invalid:
  "((page_status r pg \<noteq> Open \<or> bitmap_status r bmp \<noteq> Open \<or> width \<le> 0 \<or> height \<le> 0) \<longrightarrow>
      sbr_PdfPageRender eng r pg bmp x y width height rot flags = (Return 0, r)) \<and>
   (fst (sbr_PdfPageRender eng r pg bmp x y width height rot flags) \<noteq> Return 0 \<longrightarrow>
      page_status r pg = Open \<and> bitmap_status r bmp = Open \<and> 0 < width \<and> 0 < height) \<and>
   fst (sbr_PdfPageRender eng r pg bmp x y width height rot flags) \<in>
      {Return 0, Return 1, EngineFault} \<and>
   (\<not> flag_set flags sbr_rfNoCatch \<longrightarrow>
      fst (sbr_PdfPageRender eng r pg bmp x y width height rot flags) \<in> {Return 0, Return 1})"
  by (auto simp: sbr_PdfPageRender_def page_status_def bitmap_status_def
      split: option.splits if_splits)

theorem render_invalid_witness:
  "sbr_PdfPageRender scenario_engine scenario_registry 9 4 0 0 612 792 sbr_RotateClockwise_0 0 =
     (Return 0, scenario_registry) \<and>
   sbr_PdfPageRender scenario_engine scenario_registry 3 4 0 0 0 792 sbr_RotateClockwise_0 0 =
     (Return 0, scenario_registry) \<and>
   sbr_PdfPageRender scenario_engine scenario_registry 3 4 0 0 612 (- 1) sbr_RotateClockwise_0 0 =
     (Return 0, scenario_registry) \<and>
   fst (sbr_PdfPageRender scenario_engine scenario_registry 3 4 0 0 612 792 sbr_RotateClockwise_0 0) =
     Return 1"
proof -
  note t1 = render_invalid [of scenario_registry 9 4 612 792 scenario_engine 0 0
      sbr_RotateClockwise_0 0]
  note t2 = render_invalid [of scenario_registry 3 4 0 792 scenario_engine 0 0
      sbr_RotateClockwise_0 0]
  note t3 = render_invalid [of scenario_registry 3 4 612 "- 1" scenario_engine 0 0
      sbr_RotateClockwise_0 0]
  from t1 [THEN conjunct1] scenario_status(6) have a:
    "sbr_PdfPageRender scenario_engine scenario_registry 9 4 0 0 612 792 sbr_RotateClockwise_0 0 =
      (Return 0, scenario_registry)"
    by simp
  from t2 [THEN conjunct1] have b:
    "sbr_PdfPageRender scenario_engine scenario_registry 3 4 0 0 0 792 sbr_RotateClockwise_0 0 =
      (Return 0, scenario_registry)"
    by simp
  from t3 [THEN conjunct1] have c:
    "sbr_PdfPageRender scenario_engine scenario_registry 3 4 0 0 612 (- 1) sbr_RotateClockwise_0 0 =
      (Return 0, scenario_registry)"
    by simp
  have d: "fst (sbr_PdfPageRender scenario_engine scenario_registry 3 4 0 0 612 792
      sbr_RotateClockwise_0 0) = Return 1"
    by (simp add: sbr_PdfPageRender_def scenario_registry_eq page_status_def doc_status_def
        scenario_engine_def)
  show ?thesis
    by (intro conjI a b c d)
qed

subsection \<open>The release callback of a bitmap\<close>



subsection \<open>The release callback of a custom source\<close>

text \<open>
  C4. Take any registry \<open>r\<close> a host can reach, open a Document against a custom source
  with \<open>OpenCustom\<close>, and let the host go on with any sequence \<open>ops\<close> of calls. No release
  call for this source was made before. If the construction of the document fails,
  \<open>release\<close> is invoked immediately with the context given, and this one call is all
  there ever is for the source, whatever follows. If the Document is opened, \<open>release\<close>
  has not been invoked as long as the Document is open, it has been invoked exactly once,
  with the context given, once the Document is closed, and a \<open>Close\<close> of the Document
  among the calls does close it. What the read callback does, and whether the engine
  ever calls it, plays no part.
\<close>

theorem custom_source_released_once:
  assumes reach: "r = run eng ops0 empty_registry"
    and opn: "sbr_PdfDocumentOpenCustom eng r ctx sz read release pw = (res, r1)"
    and later: "r2 = run eng ops r1"
  shows "source_released (next_handle r) (released r) = [] \<and>
    (case res of
       Inl e \<Rightarrow>
         e = OpenError \<and> doc_status r2 (next_handle r) = Uninitialized \<and>
         source_released (next_handle r) (released r1) = [SourceReleased (next_handle r) release ctx] \<and>
         source_released (next_handle r) (released r2) = [SourceReleased (next_handle r) release ctx]
     | Inr h \<Rightarrow>
         h = next_handle r \<and> doc_status r1 h = Open \<and>
         source_released h (released r1) = [] \<and>
         source_released h (released r2) =
           (if doc_status r2 h = Closed then [SourceReleased h release ctx] else []) \<and>
         (DocumentClose h \<in> set ops \<longrightarrow> doc_status r2 h = Closed))"
proof -
  let ?k = "next_handle r"
  from reach have ok: "registry_ok r"
    by (simp add: ok_run ok_empty)
  then have none: "documents r ?k = None" and quiet: "source_released ?k (released r) = []"
    unfolding registry_ok_def by simp_all
  from ok_OpenCustom [OF ok, of eng ctx sz read release pw] opn have ok1: "registry_ok r1"
    by simp
  show ?thesis
  proof (cases "parse_custom eng sz read pw")
    case None
    with opn have res: "res = Inl OpenError"
      and r1: "r1 = r\<lparr>next_handle := Suc ?k,
          released := released r @ [SourceReleased ?k release ctx]\<rparr>"
      by (simp_all add: OpenCustom_unfold)
    from r1 none quiet have a: "?k < next_handle r1" "documents r1 ?k = None"
      and b: "source_released ?k (released r1) = [SourceReleased ?k release ctx]"
      by simp_all
    from orphan_run [OF a, of eng ops] b later
    have "documents r2 ?k = None"
      "source_released ?k (released r2) = [SourceReleased ?k release ctx]"
      by simp_all
    with res b quiet show ?thesis
      by (simp add: doc_status_def)
  next
    case (Some pdf)
    define d where "d = \<lparr>doc_pages = pdf, doc_release = Some (release, ctx), doc_state = Open\<rparr>"
    from Some opn have res: "res = Inr ?k"
      and r1: "r1 = snd (register_document r pdf (Some (release, ctx)))"
      by (simp_all add: OpenCustom_unfold)
    from r1 have d1: "documents r1 ?k = Some d" and rel1: "released r1 = released r"
      by (simp_all add: register_document_def d_def)
    from doc_persist_run [OF ok1 d1, of eng ops] later obtain d2 where
      d2: "documents r2 ?k = Some d2" "doc_release d2 = Some (release, ctx)"
      by (auto simp: d_def)
    from ok1 later have ok2: "registry_ok r2"
      by (simp add: ok_run)
    with d2 have "source_released ?k (released r2) =
        (if doc_state d2 = Closed then source_events ?k d2 else [])"
      unfolding registry_ok_def by blast
    with d2 have ev: "source_released ?k (released r2) =
        (if doc_status r2 ?k = Closed then [SourceReleased ?k release ctx] else [])"
      by (simp add: doc_status_def source_events_def)
    have cl: "DocumentClose ?k \<in> set ops \<longrightarrow> doc_status r2 ?k = Closed"
      using closed_by_run [OF ok1 d1, of ops eng] later by simp
    from d1 have st: "doc_status r1 ?k = Open"
      by (simp add: doc_status_def d_def)
    from res st rel1 quiet ev cl show ?thesis
      by simp
  qed
qed

theorem custom_source_released_once_witness:
  "fst (sbr_PdfDocumentOpenCustom scenario_engine empty_registry 5 100 (\<lambda>off len. []) 9 []) = Inr 1 \<and>
   source_released 1 (released (run scenario_engine [DocumentClose 1, DocumentClose 1]
     (snd (sbr_PdfDocumentOpenCustom scenario_engine empty_registry 5 100 (\<lambda>off len. []) 9 [])))) =
     [SourceReleased 1 9 5] \<and>
   fst (sbr_PdfDocumentOpenCustom scenario_engine empty_registry 5 0 (\<lambda>off len. []) 9 []) =
     Inl OpenError \<and>
   source_released 1 (released (run scenario_engine [DocumentClose 1, OpenMemory [] []]
     (snd (sbr_PdfDocumentOpenCustom scenario_engine empty_registry 5 0 (\<lambda>off len. []) 9 [])))) =
     [SourceReleased 1 9 5]"
proof -
  let ?rd = "\<lambda>(off :: nat) (len :: nat). [] :: byte list"
  let ?good = "sbr_PdfDocumentOpenCustom scenario_engine empty_registry 5 100 ?rd 9 []"
  let ?bad = "sbr_PdfDocumentOpenCustom scenario_engine empty_registry 5 0 ?rd 9 []"
  have reach: "empty_registry = run scenario_engine [] empty_registry"
    by (simp add: run_def)
  have n: "next_handle empty_registry = 1"
    by (simp add: empty_registry_def)
  have g: "fst ?good = Inr 1"
    by (simp add: OpenCustom_unfold scenario_engine_def n)
  have b: "fst ?bad = Inl OpenError"
    by (simp add: OpenCustom_unfold scenario_engine_def)
  note tg = custom_source_released_once [OF reach, of 5 100 ?rd 9 "[]" "fst ?good" "snd ?good"
      "run scenario_engine [DocumentClose 1, DocumentClose 1] (snd ?good)"
      "[DocumentClose 1, DocumentClose 1]", OF prod.collapse [symmetric] refl]
  note tb = custom_source_released_once [OF reach, of 5 0 ?rd 9 "[]" "fst ?bad" "snd ?bad"
      "run scenario_engine [DocumentClose 1, OpenMemory [] []] (snd ?bad)"
      "[DocumentClose 1, OpenMemory [] []]", OF prod.collapse [symmetric] refl]
  from tg have g2: "source_released 1 (released (run scenario_engine
      [DocumentClose 1, DocumentClose 1] (snd ?good))) = [SourceReleased 1 9 5]"
    by (simp add: g n)
  from tb have b2: "source_released 1 (released (run scenario_engine
      [DocumentClose 1, OpenMemory [] []] (snd ?bad))) = [SourceReleased 1 9 5]"
    by (simp add: b n)
  show ?thesis
    by (intro conjI g g2 b b2)
qed

subsection \<open>Rotation\<close>

text \<open>
  C9. The rotation of a render call is one of exactly four clockwise quarter turns, 0,
  90, 180 and 270 degrees, which the ABI encodes as the enumerator values 0, 1, 2 and
  3, the angle divided by 90, each value for one angle. In a render of an open page onto
  an open bitmap with a rectangle of positive width and height, the content of the page
  is rotated as requested and the rotated content is what is placed into the
  destination rectangle. The rotation stored in the page takes no part: with any other
  stored rotation \<open>m\<close> the render returns the same code and leaves the same pixels.
\<close>

theorem rotation_quarter_turns:
  "rotate_degrees rot \<in> {0, 90, 180, 270} \<and>
   range rotate_degrees = {0, 90, 180, 270} \<and>
   rotate_value rot = rotate_degrees rot div 90 \<and>
   rotate_degrees rot = 90 * rotate_value rot \<and>
   range rotate_value = {0, 1, 2, 3} \<and>
   inj rotate_value \<and>
   (pages r pg = Some p \<and> page_status r pg = Open \<and> bitmaps r bmp = Some b \<and>
    bmp_state b = Open \<and> 0 < w \<and> 0 < h \<and>
    place eng (rotate_content eng rot (page_content (page_data p))) (x, y, w, h) flags
      (pixels r (bmp_scan0 b)) = Some px \<longrightarrow>
      sbr_PdfPageRender eng r pg bmp x y w h rot flags =
        (Return 1, r\<lparr>pixels := (pixels r)(bmp_scan0 b := px)\<rparr>)) \<and>
   (pages r pg = Some p \<longrightarrow>
      fst (sbr_PdfPageRender eng
            (r\<lparr>pages := (pages r)(pg \<mapsto> p\<lparr>page_data := (page_data p)\<lparr>page_rotation := m\<rparr>\<rparr>)\<rparr>)
            pg bmp x y w h rot flags) =
        fst (sbr_PdfPageRender eng r pg bmp x y w h rot flags) \<and>
      pixels (snd (sbr_PdfPageRender eng
            (r\<lparr>pages := (pages r)(pg \<mapsto> p\<lparr>page_data := (page_data p)\<lparr>page_rotation := m\<rparr>\<rparr>)\<rparr>)
            pg bmp x y w h rot flags)) =
        pixels (snd (sbr_PdfPageRender eng r pg bmp x y w h rot flags)))"
proof -
  have all: "(UNIV :: sbr_RotateClockwise set) =
      {sbr_RotateClockwise_0, sbr_RotateClockwise_90, sbr_RotateClockwise_180,
       sbr_RotateClockwise_270}"
    using sbr_RotateClockwise.exhaust by auto
  have a: "rotate_degrees rot \<in> {0, 90, 180, 270}"
    by (cases rot) simp_all
  have b: "range rotate_degrees = {0, 90, 180, 270}"
    by (simp add: all)
  have c: "rotate_value rot = rotate_degrees rot div 90"
    by (cases rot) simp_all
  have d: "rotate_degrees rot = 90 * rotate_value rot"
    by (cases rot) simp_all
  have e: "range rotate_value = {0, 1, 2, 3}"
    by (simp add: all)
  have f: "inj rotate_value"
  proof (rule injI)
    fix s t assume "rotate_value s = rotate_value t"
    then show "s = t" by (cases s; cases t) simp_all
  qed
  have g: "pages r pg = Some p \<and> page_status r pg = Open \<and> bitmaps r bmp = Some b \<and>
    bmp_state b = Open \<and> 0 < w \<and> 0 < h \<and>
    place eng (rotate_content eng rot (page_content (page_data p))) (x, y, w, h) flags
      (pixels r (bmp_scan0 b)) = Some px \<longrightarrow>
      sbr_PdfPageRender eng r pg bmp x y w h rot flags =
        (Return 1, r\<lparr>pixels := (pixels r)(bmp_scan0 b := px)\<rparr>)"
    using render_rotate_then_place [of r pg p bmp b w h eng rot x y flags px] by blast
  have i: "pages r pg = Some p \<longrightarrow>
      fst (sbr_PdfPageRender eng
            (r\<lparr>pages := (pages r)(pg \<mapsto> p\<lparr>page_data := (page_data p)\<lparr>page_rotation := m\<rparr>\<rparr>)\<rparr>)
            pg bmp x y w h rot flags) =
        fst (sbr_PdfPageRender eng r pg bmp x y w h rot flags) \<and>
      pixels (snd (sbr_PdfPageRender eng
            (r\<lparr>pages := (pages r)(pg \<mapsto> p\<lparr>page_data := (page_data p)\<lparr>page_rotation := m\<rparr>\<rparr>)\<rparr>)
            pg bmp x y w h rot flags)) =
        pixels (snd (sbr_PdfPageRender eng r pg bmp x y w h rot flags))"
    using render_rotation_metadata [OF _ refl, of r pg p eng m bmp x y w h rot flags] by blast
  show ?thesis
    by (intro conjI a b c d e f g i)
qed

theorem rotation_quarter_turns_witness:
  "map rotate_value [sbr_RotateClockwise_0, sbr_RotateClockwise_90, sbr_RotateClockwise_180,
      sbr_RotateClockwise_270] = [0, 1, 2, 3] \<and>
   map rotate_degrees [sbr_RotateClockwise_0, sbr_RotateClockwise_90, sbr_RotateClockwise_180,
      sbr_RotateClockwise_270] = [0, 90, 180, 270] \<and>
   sbr_PdfPageRender scenario_engine scenario_registry 3 4 0 0 612 792 sbr_RotateClockwise_90 0 =
     (Return 1, scenario_registry\<lparr>pixels := (pixels scenario_registry)(4096 := [8])\<rparr>)"
proof -
  let ?p = "\<lparr>page_owner = 1, page_data = scenario_page, page_state = Open\<rparr>"
  let ?b = "\<lparr>bmp_width = 612, bmp_height = 792, bmp_format = sbr_PixelFormat_bgra,
    bmp_stride = 2448, bmp_scan0 = 4096, bmp_release = None, bmp_state = Open\<rparr>"
  have v: "map rotate_value [sbr_RotateClockwise_0, sbr_RotateClockwise_90,
      sbr_RotateClockwise_180, sbr_RotateClockwise_270] = [0, 1, 2, 3]"
    by simp
  have g: "map rotate_degrees [sbr_RotateClockwise_0, sbr_RotateClockwise_90,
      sbr_RotateClockwise_180, sbr_RotateClockwise_270] = [0, 90, 180, 270]"
    by simp
  have pg: "pages scenario_registry 3 = Some ?p"
    and bm: "bitmaps scenario_registry 4 = Some ?b"
    and px: "pixels scenario_registry 4096 = []"
    by (simp_all add: scenario_registry_eq)
  have pl: "place scenario_engine
      (rotate_content scenario_engine sbr_RotateClockwise_90 (page_content (page_data ?p)))
      (0, 0, 612, 792) 0 (pixels scenario_registry (bmp_scan0 ?b)) = Some [8]"
    by (simp add: scenario_engine_def scenario_page_def)
  note t = rotation_quarter_turns [of sbr_RotateClockwise_90 scenario_registry 3 ?p 4 ?b
      612 792 scenario_engine 0 0 0 "[8]" 0]
  from t pg bm pl scenario_status(3) have r:
    "sbr_PdfPageRender scenario_engine scenario_registry 3 4 0 0 612 792 sbr_RotateClockwise_90 0 =
      (Return 1, scenario_registry\<lparr>pixels := (pixels scenario_registry)(4096 := [8])\<rparr>)"
    by simp
  show ?thesis
    by (intro conjI v g r)
qed

end
